theory Spec2Isabelle
  imports Complex_Main "HOL-Library.Multiset" "HOL-Library.Log_Nat"
begin

section \<open>The autoupdater process\<close>

text \<open>
  The program is \<^verbatim>\<open>src/admin/autoupdater/src/autoupdater.c\<close>. Its functions read and
  write the global struct \<^verbatim>\<open>G\<close>, print to stderr and leave through \<^verbatim>\<open>exit\<close>, so
  every function of the model takes the process state and returns an outcome: a normal
  return with the new state, or the exit status with the state at that point.

  Conventions of the model.
  \<^item> C \<^verbatim>\<open>float\<close> is IEEE 754 binary32, every operation is rounded to binary32
    (\<^verbatim>\<open>FLT_EVAL_METHOD\<close> 0) in the default rounding mode, to nearest with ties to even.
    The sign of a zero is not kept: \<^verbatim>\<open>get_probability\<close> never divides by a zero and
    returns its zeros from the constant 0.
  \<^item> \<^verbatim>\<open>time_t\<close> is a signed integer type whose width is a parameter; a subtraction
    whose result does not fit is undefined behaviour, the outcome \<open>Overflow\<close>.
  \<^item> \<^verbatim>\<open>size_t\<close> counters are natural numbers; none of them is incremented beyond the
    length of a list held in memory.
  \<^item> A \<^verbatim>\<open>const char *\<close> that may be \<^verbatim>\<open>NULL\<close> is a \<open>string option\<close>.
  \<^item> stderr is the list of the lines written, without the trailing newline and without
    the expansion of \<^verbatim>\<open>%m\<close>.
\<close>

subsection \<open>State\<close>

record globals =
  force :: bool
  fallback :: bool
  branch :: "string option"
  old_version :: "string option"
  n_mirrors :: nat
  mirrors :: "string option list"
  n_pubkeys :: nat
  pubkeys :: "string option list"
  good_signatures :: nat
  branch_name :: "string option"

text \<open>
  The process state: the globals, stderr, the state of the \<^verbatim>\<open>random()\<close> generator (the
  seed given to \<^verbatim>\<open>srandom\<close> and the number of draws made so far), and two fields that
  are not program state. \<open>trace\<close> records every call of \<^verbatim>\<open>autoupdate\<close>, as the slot of
  the mirror array the argument was read from and the argument. \<open>iterations\<close> records,
  at the start of every iteration of the mirror loop, the value of \<^verbatim>\<open>mirrors_left\<close> and the
  content of the mirror array.
\<close>

record proc =
  G :: globals
  stderr :: "string list"
  rand_seed :: nat
  rand_calls :: nat
  trace :: "(nat \<times> string option) list"
  iterations :: "(nat \<times> string option list) list"

datatype 'a outcome =
    Return 'a proc
  | Exit nat proc
  | OutOfBounds
  | Blocked
  | Overflow

text \<open>
  \<open>OutOfBounds\<close> is a read beyond the end of the mirror array and \<open>Overflow\<close> a signed
  integer overflow (both undefined behaviour in C); \<open>Blocked\<close> is a system call that waits
  for another process.
\<close>

definition andthen :: "'a outcome \<Rightarrow> ('a \<Rightarrow> proc \<Rightarrow> 'b outcome) \<Rightarrow> 'b outcome" where
  "andthen r f =
     (case r of
        Return x p \<Rightarrow> f x p
      | Exit st p \<Rightarrow> Exit st p
      | OutOfBounds \<Rightarrow> OutOfBounds
      | Blocked \<Rightarrow> Blocked
      | Overflow \<Rightarrow> Overflow)"

definition fputs :: "string \<Rightarrow> proc \<Rightarrow> proc" where
  "fputs line p = p\<lparr>stderr := stderr p @ [line]\<rparr>"

text \<open>\<^verbatim>\<open>G = {}\<close>: every field zero. Without \<^verbatim>\<open>srandom\<close> the generator's seed is 1.\<close>

definition G_init :: globals where
  "G_init = \<lparr>force = False, fallback = False, branch = None, old_version = None,
              n_mirrors = 0, mirrors = [], n_pubkeys = 0, pubkeys = [],
              good_signatures = 0, branch_name = None\<rparr>"

definition proc_init :: proc where
  "proc_init = \<lparr>G = G_init, stderr = [], rand_seed = 1, rand_calls = 0, trace = [],
                 iterations = []\<rparr>"

subsection \<open>Single-precision arithmetic\<close>

text \<open>
  A binary32 value is a real number of the form \<open>m * 2^q\<close> with \<open>\<bar>m\<bar> < 2^24\<close> and
  \<open>-149 \<le> q \<le> 104\<close>, an infinity or a NaN.
\<close>

datatype binary32 = Finite real | PlusInfinity | MinusInfinity | NaN

text \<open>For \<open>x > 0\<close>, the \<open>e\<close> with \<open>2^e \<le> x < 2^(e+1)\<close>.\<close>

definition exponent :: "real \<Rightarrow> int" where
  "exponent x = (if 1 \<le> x then bitlen \<lfloor>x\<rfloor> - 1 else - bitlen (\<lceil>1 / x\<rceil> - 1))"

text \<open>The nearest integer, the even one of the two when \<open>y\<close> lies half way.\<close>

definition round_even :: "real \<Rightarrow> int" where
  "round_even y =
     (let f = \<lfloor>y\<rfloor>; r = y - of_int f
      in if r < 1 / 2 then f else if 1 / 2 < r then f + 1 else if even f then f else f + 1)"

text \<open>
  Rounding of an exact result to binary32. The result is a multiple of \<open>2^q\<close>, where the
  exponent \<open>q\<close> leaves 24 significant bits and is not below -149, the exponent of the
  subnormal numbers; it is the nearest such multiple, and an infinity when the magnitude
  of that multiple is \<open>2^128\<close> or more.
\<close>

definition quantum :: "real \<Rightarrow> int" where
  "quantum x = max (exponent \<bar>x\<bar> - 23) (- 149)"

definition nearest :: "real \<Rightarrow> real" where
  "nearest x =
     (if x = 0 then 0
      else of_int (round_even (x / 2 powi quantum x)) * 2 powi quantum x)"

definition round32 :: "real \<Rightarrow> binary32" where
  "round32 x =
     (let y = nearest x
      in if 2 ^ 128 \<le> y then PlusInfinity
         else if y \<le> - (2 ^ 128) then MinusInfinity
         else Finite y)"

text \<open>The conversion of an integer to \<^verbatim>\<open>float\<close>.\<close>

definition float_of_int :: "int \<Rightarrow> binary32" where
  "float_of_int k = round32 (of_int k)"

fun fneg :: "binary32 \<Rightarrow> binary32" where
  "fneg (Finite a) = Finite (- a)"
| "fneg PlusInfinity = MinusInfinity"
| "fneg MinusInfinity = PlusInfinity"
| "fneg NaN = NaN"

fun fadd :: "binary32 \<Rightarrow> binary32 \<Rightarrow> binary32" where
  "fadd NaN b = NaN"
| "fadd a NaN = NaN"
| "fadd PlusInfinity MinusInfinity = NaN"
| "fadd MinusInfinity PlusInfinity = NaN"
| "fadd PlusInfinity b = PlusInfinity"
| "fadd a PlusInfinity = PlusInfinity"
| "fadd MinusInfinity b = MinusInfinity"
| "fadd a MinusInfinity = MinusInfinity"
| "fadd (Finite a) (Finite b) = round32 (a + b)"

definition fsub :: "binary32 \<Rightarrow> binary32 \<Rightarrow> binary32" where
  "fsub a b = fadd a (fneg b)"

fun fmul :: "binary32 \<Rightarrow> binary32 \<Rightarrow> binary32" where
  "fmul NaN b = NaN"
| "fmul a NaN = NaN"
| "fmul (Finite a) (Finite b) = round32 (a * b)"
| "fmul (Finite a) b = (if a = 0 then NaN else if 0 < a then b else fneg b)"
| "fmul a (Finite b) = (if b = 0 then NaN else if 0 < b then a else fneg a)"
| "fmul PlusInfinity b = b"
| "fmul MinusInfinity b = fneg b"

fun fdiv :: "binary32 \<Rightarrow> binary32 \<Rightarrow> binary32" where
  "fdiv NaN b = NaN"
| "fdiv a NaN = NaN"
| "fdiv (Finite a) (Finite b) =
     (if b = 0 then (if a = 0 then NaN else if 0 < a then PlusInfinity else MinusInfinity)
      else round32 (a / b))"
| "fdiv (Finite a) b = Finite 0"
| "fdiv a (Finite b) = (if b < 0 then fneg a else a)"
| "fdiv a b = NaN"

text \<open>\<^verbatim>\<open>a < b\<close> and \<^verbatim>\<open>a >= b\<close>: both are false when an operand is a NaN.\<close>

fun flt :: "binary32 \<Rightarrow> binary32 \<Rightarrow> bool" where
  "flt NaN b = False"
| "flt a NaN = False"
| "flt (Finite a) (Finite b) = (a < b)"
| "flt a MinusInfinity = False"
| "flt MinusInfinity b = True"
| "flt PlusInfinity b = False"
| "flt a PlusInfinity = True"

fun fge :: "binary32 \<Rightarrow> binary32 \<Rightarrow> bool" where
  "fge NaN b = False"
| "fge a NaN = False"
| "fge a b = (\<not> flt a b)"

text \<open>
  libm's \<^verbatim>\<open>powf(0.75f, y)\<close>, taken as correctly rounded. \<^verbatim>\<open>powf(x, 0)\<close> is 1; for the
  base 0.75 the power of an infinite exponent is 0 or infinite.
\<close>

fun powf_0_75 :: "binary32 \<Rightarrow> binary32" where
  "powf_0_75 (Finite y) = round32 (0.75 powr y)"
| "powf_0_75 PlusInfinity = Finite 0"
| "powf_0_75 MinusInfinity = PlusInfinity"
| "powf_0_75 NaN = NaN"

subsection \<open>The world outside the process\<close>

text \<open>
  The value of an option, by its \<^verbatim>\<open>type\<close>: \<^verbatim>\<open>v.string\<close> for a string option; for a
  list option, what \<^verbatim>\<open>uci_to_option(e)->v.string\<close> reads at each element \<^verbatim>\<open>e\<close> of
  \<^verbatim>\<open>v.list\<close>, in list order.
\<close>

datatype uci_value = UCI_TYPE_STRING string | UCI_TYPE_LIST "string option list"

record uci_section =
  sec_name :: string
  sec_type :: string
  sec_options :: "(string \<times> uci_value) list"

text \<open>
  What the library and system calls of the program return.
  \<^item> \<open>getopt_results\<close>: the values \<^verbatim>\<open>getopt_long\<close> returns on its successive calls, each
    with \<^verbatim>\<open>optarg\<close> and with the lines the call itself writes to stderr (its complaint
    about an unknown option or a missing argument); after the last one it returns -1.
    A long option that is not spelled exactly as an entry of the option table makes
    \<^verbatim>\<open>getopt_long\<close> search beyond the table, which has no terminating entry: the
    list holds the calls that return. For the option table of
    \<^verbatim>\<open>parse_args\<close>, \<^verbatim>\<open>-f\<close> and \<^verbatim>\<open>--force\<close> give 102 (\<^verbatim>\<open>'f'\<close>),
    \<^verbatim>\<open>--fallback\<close> gives 256, \<^verbatim>\<open>-h\<close> and \<^verbatim>\<open>--help\<close> give 104 (\<^verbatim>\<open>'h'\<close>),
    \<^verbatim>\<open>-b X\<close> and \<^verbatim>\<open>--branch X\<close> give 98 (\<^verbatim>\<open>'b'\<close>) with \<^verbatim>\<open>optarg = X\<close>, and an
    unknown option gives 63 (\<^verbatim>\<open>'?'\<close>).
  \<^item> \<open>image_name\<close>: \<^verbatim>\<open>platforminfo_get_image_name()\<close>.
  \<^item> \<open>uci_package\<close>: the sections of the package \<^verbatim>\<open>autoupdater\<close>, or \<open>None\<close> when
    \<^verbatim>\<open>uci_load\<close> fails.
  \<^item> \<open>strtoul\<close>: libc's \<^verbatim>\<open>strtoul(str, &end, 0)\<close>, as the value and the rest of the
    string at \<^verbatim>\<open>end\<close>.
  \<^item> \<open>files\<close>: the content of a file that \<^verbatim>\<open>fopen(name, "r")\<close> can open.
  \<^item> \<open>monotonic_nsec\<close>: \<^verbatim>\<open>tv_nsec\<close> of \<^verbatim>\<open>clock_gettime(CLOCK_MONOTONIC)\<close>, or
    \<open>None\<close> when the call fails.
  \<^item> \<open>random_values seed k\<close>: the result of call number \<open>k\<close> of \<^verbatim>\<open>random()\<close> after
    \<^verbatim>\<open>srandom(seed)\<close>.
  \<^item> \<open>now\<close>: \<^verbatim>\<open>time(NULL)\<close>.
  \<^item> \<open>time_t_bits\<close>: the width of \<^verbatim>\<open>time_t\<close> (32 or 64).
  \<^item> \<open>proc_uptime\<close>: the first number of \<^verbatim>\<open>/proc/uptime\<close> as \<^verbatim>\<open>fscanf("%f")\<close> reads
    it into a \<^verbatim>\<open>float\<close>, or \<open>None\<close> when the file cannot be opened or read.
  \<^item> \<open>can_open\<close>: whether \<^verbatim>\<open>open(path, O_CREAT|O_RDONLY, 0666)\<close> succeeds.
  \<^item> \<open>lock_held\<close>: whether another process holds a \<^verbatim>\<open>flock\<close> lock on the file.
  \<^item> \<open>hook_ok dir mirror\<close>: whether the scripts of a hook directory would succeed for
    a mirror, if they were run.
\<close>

record world =
  getopt_results :: "(int \<times> string option \<times> string list) list"
  image_name :: "string option"
  uci_package :: "uci_section list option"
  strtoul :: "string \<Rightarrow> nat \<times> string"
  files :: "string \<Rightarrow> string option"
  monotonic_nsec :: "nat option"
  random_values :: "nat \<Rightarrow> nat \<Rightarrow> nat"
  now :: int
  time_t_bits :: nat
  proc_uptime :: "binary32 option"
  can_open :: "string \<Rightarrow> bool"
  lock_held :: "string \<Rightarrow> bool"
  hook_ok :: "string \<Rightarrow> string \<Rightarrow> bool"

definition download_d_dir :: string where
  "download_d_dir = ''/usr/lib/autoupdater/download.d''"

definition abort_d_dir :: string where
  "abort_d_dir = ''/usr/lib/autoupdater/abort.d''"

definition upgrade_d_dir :: string where
  "upgrade_d_dir = ''/usr/lib/autoupdater/upgrade.d''"

subsection \<open>Command line\<close>

definition usage :: "proc \<Rightarrow> proc" where
  "usage p = fputs ''Usage: autoupdater <foo>'' p"

definition OPTION_BRANCH :: int where "OPTION_BRANCH = 98"
definition OPTION_FORCE :: int where "OPTION_FORCE = 102"
definition OPTION_HELP :: int where "OPTION_HELP = 104"
definition OPTION_FALLBACK :: int where "OPTION_FALLBACK = 256"

text \<open>
  The arms of the \<^verbatim>\<open>switch\<close> of \<^verbatim>\<open>parse_args\<close>. No arm ends with \<^verbatim>\<open>break\<close>, so each
  one runs into the next, down to the \<^verbatim>\<open>exit(0)\<close> of the help arm.
\<close>

definition case_OPTION_HELP :: "proc \<Rightarrow> unit outcome" where
  "case_OPTION_HELP p = Exit 0 (usage p)"

definition case_OPTION_FALLBACK :: "proc \<Rightarrow> unit outcome" where
  "case_OPTION_FALLBACK p = case_OPTION_HELP (p\<lparr>G := (G p)\<lparr>fallback := True\<rparr>\<rparr>)"

definition case_OPTION_FORCE :: "proc \<Rightarrow> unit outcome" where
  "case_OPTION_FORCE p = case_OPTION_FALLBACK (p\<lparr>G := (G p)\<lparr>force := True\<rparr>\<rparr>)"

definition case_OPTION_BRANCH :: "string option \<Rightarrow> proc \<Rightarrow> unit outcome" where
  "case_OPTION_BRANCH optarg p = case_OPTION_FORCE (p\<lparr>G := (G p)\<lparr>branch := optarg\<rparr>\<rparr>)"

definition case_default :: "proc \<Rightarrow> unit outcome" where
  "case_default p = Exit 1 (usage p)"

text \<open>
  \<^verbatim>\<open>while (true)\<close> around \<^verbatim>\<open>getopt_long\<close>: the loop is left when the result is
  negative. Every arm of the switch exits, so the body never runs a second time and only
  the first result is read. What \<^verbatim>\<open>getopt_long\<close> has written to stderr comes before the
  usage line.
\<close>

definition parse_args :: "world \<Rightarrow> proc \<Rightarrow> unit outcome" where
  "parse_args w p =
     (case getopt_results w of
        [] \<Rightarrow> Return () p
      | (c, optarg, complaint) # rest \<Rightarrow>
          if c < 0 then Return () p
          else let p' = p\<lparr>stderr := stderr p @ complaint\<rparr>
               in if c = OPTION_BRANCH then case_OPTION_BRANCH optarg p'
                  else if c = OPTION_FORCE then case_OPTION_FORCE p'
                  else if c = OPTION_FALLBACK then case_OPTION_FALLBACK p'
                  else if c = OPTION_HELP then case_OPTION_HELP p'
                  else case_default p')"

subsection \<open>Rollout probability\<close>

definition get_uptime :: "world \<Rightarrow> proc \<Rightarrow> binary32 outcome" where
  "get_uptime w p =
     (case proc_uptime w of
        Some uptime \<Rightarrow> Return uptime p
      | None \<Rightarrow> Exit 1 (fputs ''autoupdater: error: unable to determine uptime'' p))"

text \<open>
  \<^verbatim>\<open>time(NULL) - date\<close> in \<^verbatim>\<open>time_t\<close>: \<open>None\<close> when the difference does not fit.
\<close>

definition time_diff :: "world \<Rightarrow> int \<Rightarrow> int option" where
  "time_diff w date =
     (let d = now w - date
      in if - (2 ^ (time_t_bits w - 1)) \<le> d \<and> d < 2 ^ (time_t_bits w - 1) then Some d
         else None)"

text \<open>
  In the comparisons and in the division \<^verbatim>\<open>diff\<close> is converted to \<^verbatim>\<open>float\<close>, as are the
  integer constants.
\<close>

definition get_probability :: "world \<Rightarrow> int \<Rightarrow> binary32 \<Rightarrow> proc \<Rightarrow> binary32 outcome" where
  "get_probability w date priority p =
     (let seconds = fmul priority (float_of_int 86400)
      in case time_diff w date of
           None \<Rightarrow> Overflow
         | Some diff \<Rightarrow>
             if diff < 0 then
               andthen (get_uptime w (fputs ''autoupdater: warning: clock seems to be incorrect.'' p))
                 (\<lambda>uptime p'. if flt uptime (float_of_int 600) then Return (float_of_int 0) p'
                              else Return (powf_0_75 priority) p')
             else if fallback (G p) then
               (if fge (float_of_int diff) (fadd seconds (float_of_int 86400))
                then Return (float_of_int 1) p
                else Return (float_of_int 0) p)
             else if fge (float_of_int diff) seconds then Return (float_of_int 1) p
             else (let x = fdiv (float_of_int diff) seconds
                   in Return (fsub (fmul (fmul (float_of_int 3) x) x)
                                   (fmul (fmul (fmul (float_of_int 2) x) x) x)) p))"

subsection \<open>Settings\<close>

text \<open>
  \<^verbatim>\<open>getline\<close> reads the first line with its newline, or fails on an empty file. The
  string in the buffer ends at its first NUL byte (\<^verbatim>\<open>strlen\<close>); a newline at its end is
  cut off.
\<close>

definition getline :: "string \<Rightarrow> string option" where
  "getline content =
     (if content = [] then None
      else Some (takeWhile (\<lambda>c. c \<noteq> CHR 0x0A) content
                 @ (if CHR 0x0A \<in> set content then [CHR 0x0A] else [])))"

definition read_one_line :: "world \<Rightarrow> string \<Rightarrow> string option" where
  "read_one_line w filename =
     (case files w filename of
        None \<Rightarrow> None
      | Some content \<Rightarrow>
          (case getline content of
             None \<Rightarrow> None
           | Some buffer \<Rightarrow>
               let line = takeWhile (\<lambda>c. c \<noteq> CHR 0x00) buffer
               in Some (if line \<noteq> [] \<and> last line = CHR 0x0A then butlast line else line)))"

text \<open>The lookups of libuci, on the sections and options of the loaded package.\<close>

definition uci_lookup_option :: "uci_section \<Rightarrow> string \<Rightarrow> uci_value option" where
  "uci_lookup_option s name = map_of (sec_options s) name"

definition uci_lookup_option_string :: "uci_section \<Rightarrow> string \<Rightarrow> string option" where
  "uci_lookup_option_string s name =
     (case uci_lookup_option s name of
        Some (UCI_TYPE_STRING v) \<Rightarrow> Some v
      | _ \<Rightarrow> None)"

definition uci_lookup_section :: "uci_section list \<Rightarrow> string \<Rightarrow> uci_section option" where
  "uci_lookup_section pkg name = find (\<lambda>s. sec_name s = name) pkg"

definition quoted :: "string \<Rightarrow> string" where
  "quoted s = [CHR 0x27] @ s @ [CHR 0x27]"

definition load_positive_number :: "world \<Rightarrow> uci_section \<Rightarrow> string \<Rightarrow> proc \<Rightarrow> nat outcome" where
  "load_positive_number w s option p =
     (case uci_lookup_option_string s option of
        None \<Rightarrow> Exit 1 (fputs (''autoupdater: error: unable to load option '' @ quoted option) p)
      | Some str \<Rightarrow>
          (case strtoul w str of
             (ret, end) \<Rightarrow>
               if end \<noteq> [] \<or> ret = 0
               then Exit 1 (fputs (''autoupdater: error: invalid value for option '' @ quoted option) p)
               else Return ret p))"

text \<open>The result is the array and, through \<^verbatim>\<open>*len\<close>, its length. \<^verbatim>\<open>malloc\<close> succeeds.\<close>

definition load_string_list ::
  "uci_section \<Rightarrow> string \<Rightarrow> proc \<Rightarrow> (string option list \<times> nat) outcome" where
  "load_string_list s option p =
     (case uci_lookup_option s option of
        None \<Rightarrow> Exit 1 (fputs (''autoupdater: error: unable to load option '' @ quoted option) p)
      | Some (UCI_TYPE_STRING v) \<Rightarrow>
          Exit 1 (fputs (''autoupdater: error: invalid value for option '' @ quoted option) p)
      | Some (UCI_TYPE_LIST l) \<Rightarrow> Return (l, length l) p)"

text \<open>The part of \<^verbatim>\<open>load_settings\<close> after the label \<^verbatim>\<open>found\<close>.\<close>

definition load_settings_found ::
  "world \<Rightarrow> uci_section list \<Rightarrow> uci_section \<Rightarrow> proc \<Rightarrow> unit outcome" where
  "load_settings_found w pkg s p0 =
     (let p1 = (if branch (G p0) = None
                then p0\<lparr>G := (G p0)\<lparr>branch := uci_lookup_option_string s ''branch''\<rparr>\<rparr>
                else p0)
      in case branch (G p1) of
           None \<Rightarrow>
             Exit 1 (fputs ''autoupdater: error: no branch given in settings or command line'' p1)
         | Some b \<Rightarrow>
             (case uci_lookup_section pkg b of
                None \<Rightarrow> Exit 1 (fputs ''autoupdater: error: unable to load branch configuration'' p1)
              | Some br \<Rightarrow>
                  if sec_type br \<noteq> ''branch''
                  then Exit 1 (fputs ''autoupdater: error: unable to load branch configuration'' p1)
                  else
                    andthen (load_positive_number w br ''good_signatures'' p1) (\<lambda>n p2.
                    andthen (load_string_list br ''mirror'' (p2\<lparr>G := (G p2)\<lparr>good_signatures := n\<rparr>\<rparr>))
                      (\<lambda>(ms, len) p3.
                    andthen (load_string_list br ''pubkey''
                               (p3\<lparr>G := (G p3)\<lparr>mirrors := ms, n_mirrors := len\<rparr>\<rparr>))
                      (\<lambda>(ks, klen) p4.
                         let p5 = p4\<lparr>G := (G p4)\<lparr>pubkeys := ks, n_pubkeys := klen\<rparr>\<rparr>;
                             p6 = (case uci_lookup_option_string s ''version_file'' of
                                     None \<Rightarrow> p5
                                   | Some version_file \<Rightarrow>
                                       p5\<lparr>G := (G p5)\<lparr>old_version := read_one_line w version_file\<rparr>\<rparr>);
                             enabled = uci_lookup_option_string s ''enabled''
                         in if (enabled = None \<or> enabled \<noteq> Some ''1'') \<and> \<not> force (G p6)
                            then Exit 0 (fputs ''autoupdater is disabled'' p6)
                            else Return () p6)))))"

definition load_settings :: "world \<Rightarrow> proc \<Rightarrow> unit outcome" where
  "load_settings w p =
     (case uci_package w of
        None \<Rightarrow> Exit 1 (fputs ''autoupdater: error: unable to load UCI settings'' p)
      | Some pkg \<Rightarrow>
          (case find (\<lambda>s. sec_type s = ''settings'') pkg of
             None \<Rightarrow> Exit 1 (fputs ''autoupdater: error: unable to load UCI settings'' p)
           | Some s \<Rightarrow> load_settings_found w pkg s p))"

subsection \<open>Random numbers\<close>

definition randomize :: "world \<Rightarrow> proc \<Rightarrow> unit outcome" where
  "randomize w p =
     (case monotonic_nsec w of
        None \<Rightarrow> Exit 1 (fputs ''autoupdater: error: clock_gettime: '' p)
      | Some tv_nsec \<Rightarrow> Return () (p\<lparr>rand_seed := tv_nsec, rand_calls := 0\<rparr>))"

text \<open>One call of libc's \<^verbatim>\<open>random()\<close>: the next value of the seeded sequence.\<close>

definition random_libc :: "world \<Rightarrow> proc \<Rightarrow> nat \<times> proc" where
  "random_libc w p =
     (random_values w (rand_seed p) (rand_calls p), p\<lparr>rand_calls := Suc (rand_calls p)\<rparr>)"


subsection \<open>Lock\<close>

datatype flock_operation = LOCK_SH | LOCK_EX | LOCK_UN | LOCK_NB

text \<open>
  \<^verbatim>\<open>flock(2)\<close> on a file no other process has locked succeeds with 0. On a file another
  process has locked it waits, unless \<^verbatim>\<open>LOCK_NB\<close> is given: then it returns -1 at once.
  \<open>None\<close> is the call that waits.
\<close>

definition flock :: "world \<Rightarrow> string \<Rightarrow> flock_operation list \<Rightarrow> int option" where
  "flock w path operation =
     (if lock_held w path
      then (if LOCK_NB \<in> set operation then Some (- 1) else None)
      else Some 0)"

definition lockfile :: string where
  "lockfile = ''/var/run/autoupdater.lock''"

definition lock_autoupdater :: "world \<Rightarrow> proc \<Rightarrow> unit outcome" where
  "lock_autoupdater w p =
     (if \<not> can_open w lockfile
      then Exit 1 (fputs ''autoupdater: error: unable to open lock file: '' p)
      else case flock w lockfile [LOCK_EX, LOCK_NB] of
             None \<Rightarrow> Blocked
           | Some r \<Rightarrow>
               if r \<noteq> 0
               then Exit 1 (fputs ''autoupdater: error: another instance is currently running'' p)
               else Return () p)"

subsection \<open>Mirror loop\<close>

text \<open>The body of \<^verbatim>\<open>autoupdate\<close> is empty: it returns to the loop.\<close>

definition autoupdate :: "string option \<Rightarrow> proc \<Rightarrow> unit outcome" where
  "autoupdate mirror p = Return () p"

text \<open>
  The pointer \<^verbatim>\<open>mirror\<close> is the index of a slot of the array. \<^verbatim>\<open>while (!*mirror) mirror++\<close>
  reads the slot it points to; a read at or after the end of the array is \<open>None\<close>.
\<close>

function skip_null :: "string option list \<Rightarrow> nat \<Rightarrow> nat option" where
  "skip_null ms q =
     (if q < length ms
      then (if ms ! q = None then skip_null ms (Suc q) else Some q)
      else None)"
  by pat_completeness auto
termination
  by (relation "measure (\<lambda>(ms, q). length ms - q)") auto

text \<open>
  \<^verbatim>\<open>/* Move forward by i non-NULL entries */\<close>: skip the empty slots, stop when \<open>i\<close> is 0,
  otherwise step over the entry found and count \<open>i\<close> down.
\<close>

fun move_forward :: "string option list \<Rightarrow> nat \<Rightarrow> nat \<Rightarrow> nat option" where
  "move_forward ms q i =
     (case skip_null ms q of
        None \<Rightarrow> None
      | Some q' \<Rightarrow> (case i of 0 \<Rightarrow> Some q' | Suc i' \<Rightarrow> move_forward ms (Suc q') i'))"

text \<open>
  \<^verbatim>\<open>while (mirrors_left)\<close>, by recursion on \<^verbatim>\<open>mirrors_left\<close>: draw, walk to the entry,
  call \<^verbatim>\<open>autoupdate\<close>, clear the slot, decrement. The state at the start of the iteration
  is noted first.
\<close>

fun mirror_loop :: "world \<Rightarrow> nat \<Rightarrow> proc \<Rightarrow> unit outcome" where
  "mirror_loop w 0 p = Return () p"
| "mirror_loop w (Suc left) p0 =
     (case random_libc w (p0\<lparr>iterations := iterations p0 @ [(Suc left, mirrors (G p0))]\<rparr>) of
        (r, p1) \<Rightarrow>
          (case move_forward (mirrors (G p1)) 0 (r mod Suc left) of
             None \<Rightarrow> OutOfBounds
           | Some q \<Rightarrow>
               (case autoupdate (mirrors (G p1) ! q)
                       (p1\<lparr>trace := trace p1 @ [(q, mirrors (G p1) ! q)]\<rparr>) of
                  Return u p2 \<Rightarrow>
                    mirror_loop w left (p2\<lparr>G := (G p2)\<lparr>mirrors := (mirrors (G p2))[q := None]\<rparr>\<rparr>)
                | Exit st p2 \<Rightarrow> Exit st p2
                | OutOfBounds \<Rightarrow> OutOfBounds
                | Blocked \<Rightarrow> Blocked
                | Overflow \<Rightarrow> Overflow)))"

subsection \<open>main\<close>

definition main :: "world \<Rightarrow> unit outcome" where
  "main w =
     andthen (parse_args w proc_init) (\<lambda>u p1.
       if image_name w = None
       then Exit 1 (fputs ''autoupdater: error: unsupported hardware model'' p1)
       else
         andthen (load_settings w p1) (\<lambda>u p2.
         andthen (randomize w p2) (\<lambda>u p3.
         andthen (lock_autoupdater w p3) (\<lambda>u p4.
         andthen (mirror_loop w (n_mirrors (G p4)) p4) (\<lambda>u p5.
           Exit 1 (fputs ''autoupdater: no usable mirror found'' p5))))))"

text \<open>
  \<open>startup\<close> is \<^verbatim>\<open>main\<close> up to \<^verbatim>\<open>lock_autoupdater()\<close>: the state with which the mirror
  loop is entered, when every step before it returns.
\<close>

definition startup :: "world \<Rightarrow> unit outcome" where
  "startup w =
     andthen (parse_args w proc_init) (\<lambda>u p1.
       if image_name w = None
       then Exit 1 (fputs ''autoupdater: error: unsupported hardware model'' p1)
       else
         andthen (load_settings w p1) (\<lambda>u p2.
         andthen (randomize w p2) (\<lambda>u p3.
         lock_autoupdater w p3)))"

subsection \<open>Observations\<close>

definition exit_status :: "'a outcome \<Rightarrow> nat option" where
  "exit_status r = (case r of Exit st p \<Rightarrow> Some st | _ \<Rightarrow> None)"

definition final_proc :: "'a outcome \<Rightarrow> proc option" where
  "final_proc r = (case r of Exit st p \<Rightarrow> Some p | Return x p \<Rightarrow> Some p | _ \<Rightarrow> None)"

text \<open>The calls of \<^verbatim>\<open>autoupdate\<close> made in a run: one per attempted mirror.\<close>

definition attempts :: "'a outcome \<Rightarrow> (nat \<times> string option) list" where
  "attempts r = (case final_proc r of Some p \<Rightarrow> trace p | None \<Rightarrow> [])"


text \<open>
  The call returns or exits: it neither waits nor runs into undefined behaviour.
\<close>

definition terminates :: "'a outcome \<Rightarrow> bool" where
  "terminates r = (final_proc r \<noteq> None)"

text \<open>The lines a run has written to stderr.\<close>

definition messages :: "'a outcome \<Rightarrow> string list" where
  "messages r = (case final_proc r of Some p \<Rightarrow> stderr p | None \<Rightarrow> [])"

text \<open>The slots of the array that hold a mirror (are not \<^verbatim>\<open>NULL\<close>), in array order.\<close>

definition live_slots :: "string option list \<Rightarrow> nat list" where
  "live_slots ms = filter (\<lambda>q. ms ! q \<noteq> None) [0..<length ms]"

definition live :: "string option list \<Rightarrow> nat" where
  "live ms = length (live_slots ms)"


text \<open>The polynomial \<open>3x\<^sup>2 - 2x\<^sup>3\<close>, as the specification names it.\<close>

definition smoothstep :: "real \<Rightarrow> real" where
  "smoothstep x = 3 * x\<^sup>2 - 2 * x ^ 3"

subsection \<open>An example installation\<close>

definition example_mirrors :: "string list" where
  "example_mirrors = [''http://1.updates.example/stable/sysupgrade'',
                      ''http://2.updates.example/stable/sysupgrade'',
                      ''http://3.updates.example/stable/sysupgrade'']"

definition example_package :: "uci_section list" where
  "example_package =
     [\<lparr>sec_name = ''settings'', sec_type = ''settings'',
       sec_options = [(''enabled'', UCI_TYPE_STRING ''1''),
                      (''branch'', UCI_TYPE_STRING ''stable'')]\<rparr>,
      \<lparr>sec_name = ''stable'', sec_type = ''branch'',
       sec_options = [(''good_signatures'', UCI_TYPE_STRING ''2''),
                      (''mirror'', UCI_TYPE_LIST (map Some example_mirrors)),
                      (''pubkey'', UCI_TYPE_LIST [Some ''aa'', Some ''bb''])]\<rparr>]"

text \<open>
  No command-line option, a supported model, the package above, draws 5, 12, 19, ...,
  no other instance running; the third mirror is the one whose hooks would all succeed.
\<close>

definition example_world :: world where
  "example_world =
     \<lparr>getopt_results = [],
      image_name = Some ''tp-link-tl-wr841n-nd-v9'',
      uci_package = Some example_package,
      strtoul = (\<lambda>s. if s = ''2'' then (2, []) else (0, s)),
      files = (\<lambda>name. None),
      monotonic_nsec = Some 5,
      random_values = (\<lambda>seed k. seed + 7 * k),
      now = 1700000000,
      time_t_bits = 64,
      proc_uptime = Some (Finite 3600),
      can_open = (\<lambda>path. True),
      lock_held = (\<lambda>path. False),
      hook_ok = (\<lambda>dir mirror. mirror = example_mirrors ! 2 \<or> dir \<noteq> download_d_dir)\<rparr>"

text \<open>The state with which this installation enters the mirror loop.\<close>

definition example_loaded :: proc where
  "example_loaded =
     \<lparr>G = \<lparr>force = False, fallback = False, branch = Some ''stable'', old_version = None,
            n_mirrors = 3, mirrors = map Some example_mirrors,
            n_pubkeys = 2, pubkeys = [Some ''aa'', Some ''bb''],
            good_signatures = 2, branch_name = None\<rparr>,
      stderr = [], rand_seed = 5, rand_calls = 0, trace = [], iterations = []\<rparr>"

text \<open>A state in fallback mode.\<close>

definition example_fallback :: proc where
  "example_fallback = example_loaded\<lparr>G := (G example_loaded)\<lparr>fallback := True\<rparr>\<rparr>"



section \<open>Steps that return\<close>

lemma andthen_simps [simp]:
  "andthen (Return x p) f = f x p"
  "andthen (Exit st p) f = Exit st p"
  "andthen OutOfBounds f = OutOfBounds"
  "andthen Blocked f = Blocked"
  "andthen Overflow f = Overflow"
  by (simp_all add: andthen_def)

lemma andthen_Return_iff:
  "andthen r f = Return y p' \<longleftrightarrow> (\<exists>x p. r = Return x p \<and> f x p = Return y p')"
  by (cases r) simp_all

lemma parse_args_Return: "parse_args w p = Return u p' \<Longrightarrow> p' = p"
  by (auto simp: parse_args_def case_OPTION_BRANCH_def case_OPTION_FORCE_def
      case_OPTION_FALLBACK_def case_OPTION_HELP_def case_default_def Let_def
      split: list.splits if_splits)

lemma load_positive_number_Return:
  "load_positive_number w s opt p = Return n p' \<Longrightarrow> p' = p"
  by (auto simp: load_positive_number_def split: option.splits prod.splits if_splits)

lemma load_string_list_Return:
  "load_string_list s opt p = Return (l, n) p' \<Longrightarrow> p' = p \<and> n = length l"
  by (auto simp: load_string_list_def split: option.splits uci_value.splits)

lemma load_settings_found_Return:
  assumes "load_settings_found w pkg s p = Return u p'"
  shows "n_mirrors (G p') = length (mirrors (G p')) \<and> trace p' = trace p \<and> stderr p' = stderr p
         \<and> rand_calls p' = rand_calls p \<and> iterations p' = iterations p"
  using assms
  unfolding load_settings_found_def Let_def
  by (auto simp: andthen_Return_iff split: option.splits if_splits
      dest!: load_positive_number_Return load_string_list_Return)

lemma load_settings_Return:
  assumes "load_settings w p = Return u p'"
  shows "n_mirrors (G p') = length (mirrors (G p')) \<and> trace p' = trace p \<and> stderr p' = stderr p
     \<and> rand_calls p' = rand_calls p \<and> iterations p' = iterations p"
  using assms load_settings_found_Return
  unfolding load_settings_def
  by (auto split: option.splits)

lemma randomize_Return:
  "randomize w p = Return u p' \<Longrightarrow> p' = p\<lparr>rand_seed := rand_seed p', rand_calls := 0\<rparr>"
  by (auto simp: randomize_def split: option.splits)

lemma lock_autoupdater_Return: "lock_autoupdater w p = Return u p' \<Longrightarrow> p' = p"
  by (auto simp: lock_autoupdater_def split: option.splits if_splits)

lemma startup_Return:
  assumes "startup w = Return u p"
  shows "n_mirrors (G p) = length (mirrors (G p)) \<and> trace p = [] \<and> stderr p = []
    \<and> rand_calls p = 0 \<and> iterations p = []"
proof -
  from assms obtain p1 p2 p3 u1 u2 u3 where
    a: "parse_args w proc_init = Return u1 p1" and
    b: "load_settings w p1 = Return u2 p2" and
    c: "randomize w p2 = Return u3 p3" and
    d: "lock_autoupdater w p3 = Return u p"
    unfolding startup_def by (auto simp: andthen_Return_iff split: if_splits)
  from a have p1: "p1 = proc_init" by (rule parse_args_Return)
  from d have p3: "p = p3" by (rule lock_autoupdater_Return)
  from c have "G p3 = G p2 \<and> trace p3 = trace p2 \<and> stderr p3 = stderr p2 \<and> rand_calls p3 = 0
      \<and> iterations p3 = iterations p2"
    by (auto simp: randomize_def split: option.splits)
  with load_settings_Return[OF b] p1 p3 show ?thesis
    by (simp add: proc_init_def)
qed

lemma main_startup:
  "main w = andthen (startup w) (\<lambda>u p4.
             andthen (mirror_loop w (n_mirrors (G p4)) p4) (\<lambda>u p5.
               Exit 1 (fputs ''autoupdater: no usable mirror found'' p5)))"
  unfolding main_def startup_def
  by (auto simp: andthen_def split: outcome.splits)

section \<open>The walk over the mirror array\<close>

text \<open>
  The walk started at the first slot with index \<open>i\<close> stops at the \<open>i\<close>-th live slot, and
  reads beyond the array exactly when there are not more than \<open>i\<close> live slots.
\<close>

lemma filter_upt_first:
  assumes "q \<le> q'" "q' < n" "P q'" "\<forall>j. q \<le> j \<and> j < q' \<longrightarrow> \<not> P j"
  shows "filter P [q..<n] = q' # filter P [Suc q'..<n]"
proof -
  have "[q..<n] = [q..<q'] @ q' # [Suc q'..<n]"
    using assms(1,2) by (metis le_Suc_ex less_imp_le_nat upt_add_eq_append upt_conv_Cons)
  moreover have "filter P [q..<q'] = []"
    using assms(4) by (auto simp: filter_empty_conv)
  ultimately show ?thesis using assms(3) by simp
qed

declare skip_null.simps [simp del]

lemma skip_null_Some:
  "skip_null ms q = Some q' \<Longrightarrow>
     q \<le> q' \<and> q' < length ms \<and> ms ! q' \<noteq> None \<and> (\<forall>j. q \<le> j \<and> j < q' \<longrightarrow> ms ! j = None)"
proof (induction ms q rule: skip_null.induct)
  case (1 ms q)
  show ?case
  proof (cases "q < length ms \<and> ms ! q = None")
    case True
    with "1.prems" have "skip_null ms (Suc q) = Some q'"
      by (simp add: skip_null.simps[of ms q])
    with "1.IH" True have ih: "Suc q \<le> q' \<and> q' < length ms \<and> ms ! q' \<noteq> None \<and>
        (\<forall>j. Suc q \<le> j \<and> j < q' \<longrightarrow> ms ! j = None)" by simp
    have "ms ! j = None" if "q \<le> j \<and> j < q'" for j
    proof (cases "j = q")
      case True
      with \<open>q < length ms \<and> ms ! q = None\<close> show ?thesis by simp
    next
      case False
      with that have "Suc q \<le> j \<and> j < q'" by simp
      with ih show ?thesis by blast
    qed
    with ih show ?thesis by simp
  next
    case False
    with "1.prems" have "q < length ms \<and> ms ! q \<noteq> None \<and> q' = q"
      by (simp add: skip_null.simps[of ms q] split: if_splits)
    then show ?thesis by auto
  qed
qed

lemma skip_null_None:
  "skip_null ms q = None \<Longrightarrow> filter (\<lambda>j. ms ! j \<noteq> None) [q..<length ms] = []"
proof (induction ms q rule: skip_null.induct)
  case (1 ms q)
  show ?case
  proof (cases "q < length ms")
    case True
    with "1.prems" have n: "ms ! q = None" and "skip_null ms (Suc q) = None"
      by (simp_all add: skip_null.simps[of ms q] split: if_splits)
    with "1.IH" True have "filter (\<lambda>j. ms ! j \<noteq> None) [Suc q..<length ms] = []" by simp
    with True n show ?thesis by (simp add: upt_conv_Cons)
  next
    case False
    then show ?thesis by simp
  qed
qed

lemma move_forward_filter:
  "move_forward ms q i =
     (let ls = filter (\<lambda>j. ms ! j \<noteq> None) [q..<length ms]
      in if i < length ls then Some (ls ! i) else None)"
proof (induction i arbitrary: q)
  case 0
  note move_forward.simps [simp del]
  show ?case
  proof (cases "skip_null ms q")
    case None
    from skip_null_None[OF this] None show ?thesis by (simp add: move_forward.simps[of ms q])
  next
    case (Some q')
    from skip_null_Some[OF this]
    have "filter (\<lambda>j. ms ! j \<noteq> None) [q..<length ms]
            = q' # filter (\<lambda>j. ms ! j \<noteq> None) [Suc q'..<length ms]"
      by (intro filter_upt_first) auto
    with Some show ?thesis by (simp add: move_forward.simps[of ms q])
  qed
next
  case (Suc i)
  note move_forward.simps [simp del]
  show ?case
  proof (cases "skip_null ms q")
    case None
    from skip_null_None[OF this] None show ?thesis by (simp add: move_forward.simps[of ms q])
  next
    case (Some q')
    from skip_null_Some[OF this]
    have "filter (\<lambda>j. ms ! j \<noteq> None) [q..<length ms]
            = q' # filter (\<lambda>j. ms ! j \<noteq> None) [Suc q'..<length ms]"
      by (intro filter_upt_first) auto
    with Some Suc.IH[of "Suc q'"] show ?thesis by (simp add: Let_def move_forward.simps[of ms q])
  qed
qed

declare move_forward.simps [simp del]

lemma move_forward_live:
  "move_forward ms 0 i = (if i < live ms then Some (live_slots ms ! i) else None)"
  by (simp add: move_forward_filter live_def live_slots_def Let_def)

lemma live_slots_set: "set (live_slots ms) = {q. q < length ms \<and> ms ! q \<noteq> None}"
  by (auto simp: live_slots_def)

lemma live_slots_distinct: "distinct (live_slots ms)"
  by (simp add: live_slots_def)

lemma live_slots_clear:
  "set (live_slots (ms[q := None])) = set (live_slots ms) - {q}"
proof -
  have "(x < length ms \<and> ms[q := None] ! x \<noteq> None) = (x < length ms \<and> ms ! x \<noteq> None \<and> x \<noteq> q)"
    for x by (cases "x = q") auto
  then show ?thesis by (auto simp: live_slots_set)
qed

lemma live_clear:
  assumes "q \<in> set (live_slots ms)"
  shows "live (ms[q := None]) = live ms - 1"
proof -
  have "live (ms[q := None]) = card (set (live_slots (ms[q := None])))"
    by (simp add: live_def distinct_card live_slots_distinct)
  also have "\<dots> = card (set (live_slots ms) - {q})" by (simp add: live_slots_clear)
  also have "\<dots> = card (set (live_slots ms)) - 1" using assms by simp
  also have "\<dots> = live ms - 1" by (simp add: live_def distinct_card live_slots_distinct)
  finally show ?thesis .
qed


lemma mirror_loop_run:
  "live (mirrors (G p)) = left \<Longrightarrow>
   \<exists>p' tr its. mirror_loop w left p = Return () p' \<and>
     trace p' = trace p @ tr \<and> length tr = left \<and>
     distinct (map fst tr) \<and> set (map fst tr) = set (live_slots (mirrors (G p))) \<and>
     (\<forall>(q, m) \<in> set tr. m = mirrors (G p) ! q) \<and>
     iterations p' = iterations p @ its \<and> map fst its = rev [1..<Suc left] \<and>
     (\<forall>(n, ms) \<in> set its. n = live ms \<and> 0 < n \<and> length ms = length (mirrors (G p))) \<and>
     stderr p' = stderr p \<and> rand_calls p' = rand_calls p + left \<and>
     G p' = (G p)\<lparr>mirrors := replicate (length (mirrors (G p))) None\<rparr>"
proof (induction left arbitrary: p)
  case 0
  then have "set (live_slots (mirrors (G p))) = {}" by (simp add: live_def)
  then have "\<forall>q < length (mirrors (G p)). mirrors (G p) ! q = None"
    by (auto simp: live_slots_set)
  then have "mirrors (G p) = replicate (length (mirrors (G p))) None"
    by (simp add: list_eq_iff_nth_eq)
  then have "G p = (G p)\<lparr>mirrors := replicate (length (mirrors (G p))) None\<rparr>"
    by simp
  with 0 show ?case by (simp add: live_def)
next
  case (Suc left)
  define ms where "ms = mirrors (G p)"
  define r where "r = random_values w (rand_seed p) (rand_calls p)"
  define p1 where "p1 = p\<lparr>iterations := iterations p @ [(Suc left, ms)],
                          rand_calls := Suc (rand_calls p)\<rparr>"
  define q where "q = live_slots ms ! (r mod Suc left)"
  define p2 where "p2 = (p1\<lparr>trace := trace p1 @ [(q, ms ! q)]\<rparr>)\<lparr>G := (G p1)\<lparr>mirrors := ms[q := None]\<rparr>\<rparr>"
  have lv: "live ms = Suc left" using Suc.prems by (simp add: ms_def)
  then have qin: "q \<in> set (live_slots ms)"
    unfolding q_def live_def by (intro nth_mem) simp
  have mf: "move_forward ms 0 (r mod Suc left) = Some q"
    using lv by (simp add: move_forward_live q_def)
  have rl: "random_libc w (p\<lparr>iterations := iterations p @ [(Suc left, mirrors (G p))]\<rparr>) = (r, p1)"
    by (simp add: random_libc_def r_def p1_def ms_def)
  have g1: "mirrors (G p1) = ms" by (simp add: p1_def ms_def)
  have step: "mirror_loop w (Suc left) p = mirror_loop w left p2"
    using mf by (simp add: rl g1 autoupdate_def p2_def)
  have "live (mirrors (G p2)) = left"
    using live_clear[OF qin] lv by (simp add: p2_def)
  from Suc.IH[OF this] obtain p' tr its where
    run: "mirror_loop w left p2 = Return () p'" and
    tr: "trace p' = trace p2 @ tr" "length tr = left" "distinct (map fst tr)"
        "set (map fst tr) = set (live_slots (mirrors (G p2)))"
        "\<forall>(q, m) \<in> set tr. m = mirrors (G p2) ! q" and
    its: "iterations p' = iterations p2 @ its" "map fst its = rev [1..<Suc left]"
        "\<forall>(n, ms) \<in> set its. n = live ms \<and> 0 < n \<and> length ms = length (mirrors (G p2))" and
    rest: "stderr p' = stderr p2" "rand_calls p' = rand_calls p2 + left"
        "G p' = (G p2)\<lparr>mirrors := replicate (length (mirrors (G p2))) None\<rparr>"
    by blast
  have slots: "set (map fst tr) = set (live_slots ms) - {q}"
    using tr(4) by (simp add: p2_def live_slots_clear)
  let ?tr = "(q, ms ! q) # tr"
  let ?its = "(Suc left, ms) # its"
  have 1: "trace p' = trace p @ ?tr" using tr(1) by (simp add: p2_def p1_def)
  have 2: "length ?tr = Suc left" using tr(2) by simp
  have 3: "distinct (map fst ?tr)" using tr(3) slots by simp
  have 4: "set (map fst ?tr) = set (live_slots ms)" using slots qin by auto
  have 5: "\<forall>(q', m) \<in> set ?tr. m = ms ! q'"
  proof -
    have "m = ms ! q'" if "(q', m) \<in> set tr" for q' m
    proof -
      from that have "q' \<in> set (map fst tr)" by force
      with slots have "q' \<noteq> q" by simp
      moreover from that tr(5) have "m = ms[q := None] ! q'" by (auto simp: p2_def)
      ultimately show ?thesis by simp
    qed
    then show ?thesis by auto
  qed
  have 6: "stderr p' = stderr p" "rand_calls p' = rand_calls p + Suc left"
    using rest(1,2) by (simp_all add: p2_def p1_def)
  have 7: "G p' = (G p)\<lparr>mirrors := replicate (length ms) None\<rparr>"
    using rest(3) by (simp add: p2_def p1_def ms_def)
  have 8: "iterations p' = iterations p @ ?its" using its(1) by (simp add: p2_def p1_def)
  have 9: "map fst ?its = rev [1..<Suc (Suc left)]" using its(2) by simp
  have 10: "\<forall>(n, ms') \<in> set ?its. n = live ms' \<and> 0 < n \<and> length ms' = length ms"
    using its(3) lv by (simp add: p2_def)
  from step run have 0: "mirror_loop w (Suc left) p = Return () p'" by simp
  show ?case
    unfolding ms_def[symmetric]
    by (rule exI[of _ p'], rule exI[of _ ?tr], rule exI[of _ ?its])
      (intro conjI 0 1 2 3 4 5 6 7 8 9 10)
qed

section \<open>The mirror loop\<close>

lemma live_all:
  assumes "None \<notin> set ms"
  shows "live_slots ms = [0..<length ms]"
proof -
  have "\<forall>q \<in> set [0..<length ms]. ms ! q \<noteq> None"
    using assms by (metis atLeastLessThan_iff nth_mem set_upt)
  then show ?thesis unfolding live_slots_def by (simp only: filter_True)
qed

lemma main_after_startup:
  assumes "startup w = Return () p" and "None \<notin> set (mirrors (G p))"
  shows "\<exists>p' tr. main w = Exit 1 (fputs ''autoupdater: no usable mirror found'' p') \<and>
     trace p' = tr \<and> length tr = n_mirrors (G p) \<and>
     distinct (map fst tr) \<and> set (map fst tr) = {..<n_mirrors (G p)} \<and>
     (\<forall>(q, m) \<in> set tr. m = mirrors (G p) ! q) \<and> stderr p' = []"
proof -
  from startup_Return[OF assms(1)] have s: "n_mirrors (G p) = length (mirrors (G p))"
    "trace p = []" "stderr p = []" by simp_all
  from live_all[OF assms(2)] have ls: "live_slots (mirrors (G p)) = [0..<n_mirrors (G p)]"
    by (simp add: s)
  then have "live (mirrors (G p)) = n_mirrors (G p)" by (simp add: live_def)
  from mirror_loop_run[OF this, of w] obtain p' tr where
    run: "mirror_loop w (n_mirrors (G p)) p = Return () p'" and
    tr: "trace p' = trace p @ tr" "length tr = n_mirrors (G p)" "distinct (map fst tr)"
        "set (map fst tr) = set (live_slots (mirrors (G p)))"
        "\<forall>(q, m) \<in> set tr. m = mirrors (G p) ! q" "stderr p' = stderr p"
    by blast
  have "main w = Exit 1 (fputs ''autoupdater: no usable mirror found'' p')"
    by (simp add: main_startup assms(1) run)
  moreover have "set (map fst tr) = {..<n_mirrors (G p)}" using tr(4) ls by auto
  ultimately show ?thesis using tr s by auto
qed

lemma mirror_loop_Suc:
  "mirror_loop w (Suc left) p =
     (case random_libc w (p\<lparr>iterations := iterations p @ [(Suc left, mirrors (G p))]\<rparr>) of
        (r, p1) \<Rightarrow>
          (case move_forward (mirrors (G p1)) 0 (r mod Suc left) of
             None \<Rightarrow> OutOfBounds
           | Some q \<Rightarrow>
               mirror_loop w left
                 (p1\<lparr>trace := trace p1 @ [(q, mirrors (G p1) ! q)],
                     G := (G p1)\<lparr>mirrors := (mirrors (G p1))[q := None]\<rparr>\<rparr>)))"
  by (simp add: autoupdate_def split: prod.splits option.splits)

lemma mirror_loop_step:
  "0 < left \<Longrightarrow> mirror_loop w left p =
     (case random_libc w (p\<lparr>iterations := iterations p @ [(left, mirrors (G p))]\<rparr>) of
        (r, p1) \<Rightarrow>
          (case move_forward (mirrors (G p1)) 0 (r mod left) of
             None \<Rightarrow> OutOfBounds
           | Some q \<Rightarrow>
               mirror_loop w (left - 1)
                 (p1\<lparr>trace := trace p1 @ [(q, mirrors (G p1) ! q)],
                     G := (G p1)\<lparr>mirrors := (mirrors (G p1))[q := None]\<rparr>\<rparr>)))"
  by (cases left) (simp_all add: autoupdate_def split: prod.splits option.splits)

lemma mirror_loop_no_exit: "mirror_loop w left p \<noteq> Exit st p'"
proof (induction left arbitrary: p)
  case 0
  show ?case by simp
next
  case (Suc left)
  show ?case
    using Suc.IH
    by (simp add: mirror_loop_Suc del: mirror_loop.simps split: prod.splits option.splits)
qed

lemma parse_args_trace: "final_proc (parse_args w p) = Some p' \<Longrightarrow> trace p' = trace p"
  by (auto simp: parse_args_def case_OPTION_BRANCH_def case_OPTION_FORCE_def
      case_OPTION_FALLBACK_def case_OPTION_HELP_def case_default_def final_proc_def usage_def
      fputs_def Let_def split: list.splits if_splits)

lemma load_settings_found_trace:
  "final_proc (load_settings_found w pkg s p) = Some p' \<Longrightarrow> trace p' = trace p"
  unfolding load_settings_found_def load_positive_number_def load_string_list_def Let_def
    andthen_def final_proc_def fputs_def
  by (auto split: option.splits uci_value.splits if_splits prod.splits outcome.splits)

lemma load_settings_trace:
  "final_proc (load_settings w p) = Some p' \<Longrightarrow> trace p' = trace p"
  using load_settings_found_trace[of w _ _ p p']
  by (auto simp: load_settings_def final_proc_def fputs_def split: option.splits)

lemma randomize_trace: "final_proc (randomize w p) = Some p' \<Longrightarrow> trace p' = trace p"
  by (auto simp: randomize_def final_proc_def fputs_def split: option.splits)

lemma lock_autoupdater_trace:
  "final_proc (lock_autoupdater w p) = Some p' \<Longrightarrow> trace p' = trace p"
  by (auto simp: lock_autoupdater_def final_proc_def fputs_def split: option.splits if_splits)

section \<open>Entering the mirror loop in the example installation\<close>

lemma startup_example: "startup example_world = Return () example_loaded"
  by (simp add: startup_def parse_args_def example_world_def proc_init_def G_init_def
      load_settings_def load_settings_found_def example_package_def uci_lookup_option_string_def
      uci_lookup_option_def uci_lookup_section_def load_positive_number_def load_string_list_def
      randomize_def lock_autoupdater_def flock_def example_loaded_def example_mirrors_def)

lemma main_example:
  "main example_world =
     Exit 1 (fputs ''autoupdater: no usable mirror found''
       (example_loaded\<lparr>G := (G example_loaded)\<lparr>mirrors := [None, None, None]\<rparr>,
          rand_calls := 3,
          trace := [(2, Some (example_mirrors ! 2)), (0, Some (example_mirrors ! 0)),
                    (1, Some (example_mirrors ! 1))],
          iterations :=
            [(3, map Some example_mirrors),
             (2, [Some (example_mirrors ! 0), Some (example_mirrors ! 1), None]),
             (1, [None, Some (example_mirrors ! 1), None])]\<rparr>))"
  unfolding main_startup startup_example andthen_simps
  by (simp add: mirror_loop_step random_libc_def example_loaded_def example_world_def
      example_mirrors_def move_forward.simps skip_null.simps fputs_def autoupdate_def)

section \<open>Command line\<close>

text \<open>
  Claim C3 (each command-line flag toggles only its own setting; \<^verbatim>\<open>--force\<close> sets the
  force flag and the run proceeds, without enabling fallback mode and without taking the
  help path). The program does otherwise: for \<^verbatim>\<open>--force\<close> (or \<^verbatim>\<open>-f\<close>), where
  \<^verbatim>\<open>getopt_long\<close> returns \<^verbatim>\<open>'f'\<close>, the arm of \<^verbatim>\<open>OPTION_FORCE\<close> has no
  \<^verbatim>\<open>break\<close>: the force flag is set, then the fallback flag, then the usage line is printed
  and the process exits with status 0, before any setting is loaded.
\<close>

theorem force_option_falls_through:
  "parse_args (w\<lparr>getopt_results := [(OPTION_FORCE, None, [])]\<rparr>) proc_init
     = Exit 0 (usage (proc_init\<lparr>G := G_init\<lparr>force := True, fallback := True\<rparr>\<rparr>))
   \<and> main (w\<lparr>getopt_results := [(OPTION_FORCE, None, [])]\<rparr>)
     = Exit 0 (usage (proc_init\<lparr>G := G_init\<lparr>force := True, fallback := True\<rparr>\<rparr>))"
  by (simp add: main_def parse_args_def OPTION_FORCE_def OPTION_BRANCH_def case_OPTION_FORCE_def
      case_OPTION_FALLBACK_def case_OPTION_HELP_def proc_init_def)

section \<open>Rounding to binary32\<close>

lemma exponent_bounds:
  assumes "0 < x"
  shows "2 powi (exponent x) \<le> x \<and> x < 2 powi (exponent x + 1)"
proof (cases "1 \<le> x")
  case True
  define n where "n = \<lfloor>x\<rfloor>"
  have n: "0 < n" using True by (simp add: n_def)
  have e: "exponent x = bitlen n - 1" using True by (simp add: exponent_def n_def)
  from bitlen_bounds[OF n] have b: "2 ^ nat (bitlen n - 1) \<le> n" "n < 2 ^ nat (bitlen n)"
    by simp_all
  have p: "0 \<le> bitlen n - 1" using n by (simp add: bitlen_alt_def)
  have "(2::real) powi (bitlen n - 1) = 2 ^ nat (bitlen n - 1)"
    using p by (simp add: power_int_def)
  also have "\<dots> = of_int (2 ^ nat (bitlen n - 1))" by simp
  also have "\<dots> \<le> of_int n" using b(1) by (simp only: of_int_le_iff)
  also have "\<dots> \<le> x" by (simp add: n_def)
  finally have 1: "2 powi (exponent x) \<le> x" by (simp add: e)
  have "x < of_int (n + 1)" by (simp add: n_def)
  also have "\<dots> \<le> of_int (2 ^ nat (bitlen n))" using b(2) by (simp only: of_int_le_iff)
  also have "\<dots> = 2 powi (bitlen n)" using p by (simp add: power_int_def)
  finally have 2: "x < 2 powi (exponent x + 1)" by (simp add: e)
  from 1 2 show ?thesis by simp
next
  case False
  define n where "n = \<lceil>1 / x\<rceil> - 1"
  define k where "k = bitlen n"
  have y: "1 < 1 / x" using assms False by simp
  have up: "1 / x \<le> of_int (n + 1)" by (simp add: n_def)
  have lo: "of_int n < 1 / x" unfolding n_def by linarith
  have n: "0 < n" using y unfolding n_def by linarith
  have e: "exponent x = - k" using False by (simp add: exponent_def n_def k_def)
  from bitlen_bounds[OF n] have b: "2 ^ nat (k - 1) \<le> n" "n < 2 ^ nat k"
    by (simp_all add: k_def)
  have k: "1 \<le> k" using n by (simp add: k_def bitlen_alt_def)
  have "1 / x \<le> of_int (n + 1)" by (rule up)
  also have "\<dots> \<le> of_int (2 ^ nat k)" using b(2) by (simp only: of_int_le_iff)
  also have "\<dots> = 2 ^ nat k" by simp
  finally have "1 / x \<le> 2 ^ nat k" .
  then have "1 / 2 ^ nat k \<le> x" using assms
    by (simp add: field_simps)
  moreover have "(2::real) powi (- k) = 1 / 2 ^ nat k"
    using k by (simp add: power_int_def field_simps)
  ultimately have 1: "2 powi (exponent x) \<le> x" by (simp add: e)
  have "(2::real) ^ nat (k - 1) = of_int (2 ^ nat (k - 1))" by simp
  also have "\<dots> \<le> of_int n" using b(1) by (simp only: of_int_le_iff)
  also have "\<dots> < 1 / x" by (rule lo)
  finally have "2 ^ nat (k - 1) < 1 / x" .
  then have "x < 1 / 2 ^ nat (k - 1)" using assms by (simp add: field_simps)
  moreover have "(2::real) powi (- k + 1) = 1 / 2 ^ nat (k - 1)"
  proof -
    have "- k + 1 = - (k - 1)" by simp
    moreover have "(2::real) powi (- (k - 1)) = 1 / 2 ^ nat (k - 1)"
      using k by (simp add: power_int_def field_simps)
    ultimately show ?thesis by simp
  qed
  ultimately have 2: "x < 2 powi (exponent x + 1)" by (simp add: e)
  from 1 2 show ?thesis by simp
qed

lemma exponent_mono:
  assumes "0 < x" and "x \<le> y"
  shows "exponent x \<le> exponent y"
proof (rule ccontr)
  assume "\<not> exponent x \<le> exponent y"
  then have "exponent y + 1 \<le> exponent x" by simp
  then have "(2::real) powi (exponent y + 1) \<le> 2 powi (exponent x)"
    by (intro power_int_increasing) simp_all
  moreover from assms have "0 < y" by simp
  ultimately show False
    using exponent_bounds[OF assms(1)] exponent_bounds[OF \<open>0 < y\<close>] assms(2) by linarith
qed

lemma round_even_of_int [simp]: "round_even (of_int n) = n"
  by (simp add: round_even_def)

lemma round_even_bounds: "\<lfloor>y\<rfloor> \<le> round_even y \<and> round_even y \<le> \<lfloor>y\<rfloor> + 1"
  by (simp add: round_even_def Let_def)

lemma round_even_mono:
  assumes "a \<le> b"
  shows "round_even a \<le> round_even b"
proof (cases "\<lfloor>a\<rfloor> = \<lfloor>b\<rfloor>")
  case True
  with assms have "a - of_int \<lfloor>a\<rfloor> \<le> b - of_int \<lfloor>b\<rfloor>" by simp
  with True show ?thesis by (auto simp: round_even_def Let_def)
next
  case False
  with assms have "\<lfloor>a\<rfloor> + 1 \<le> \<lfloor>b\<rfloor>" using floor_mono[OF assms] by linarith
  with round_even_bounds[of a] round_even_bounds[of b] show ?thesis by linarith
qed


lemma round_even_minus: "round_even (- y) = - round_even y"
proof (cases "y = of_int \<lfloor>y\<rfloor>")
  case True
  then obtain n where "y = of_int n" ..
  then have "- y = of_int (- n)" by simp
  then show ?thesis unfolding \<open>y = of_int n\<close> by (simp only: round_even_of_int)
next
  case False
  then have f: "\<lfloor>- y\<rfloor> = - \<lfloor>y\<rfloor> - 1"
    by (metis ceiling_altdef ceiling_def add_diff_cancel_right' minus_diff_eq
        uminus_add_conv_diff)
  show ?thesis
    unfolding round_even_def Let_def f
    by (auto simp: algebra_simps)
qed

lemma quantum_pos: "0 < x \<Longrightarrow> quantum x = max (exponent x - 23) (- 149)"
  by (simp add: quantum_def)

lemma quantum_mono:
  assumes "0 < x" and "x \<le> y"
  shows "quantum x \<le> quantum y"
  using exponent_mono[OF assms] assms by (simp add: quantum_pos)

lemma nearest_mono_pos:
  assumes "0 < x" and "x \<le> y"
  shows "nearest x \<le> nearest y"
proof -
  have y: "0 < y" using assms by simp
  have nx: "nearest x = of_int (round_even (x / 2 powi quantum x)) * 2 powi quantum x"
    using assms(1) by (simp add: nearest_def)
  have ny: "nearest y = of_int (round_even (y / 2 powi quantum y)) * 2 powi quantum y"
    using y by (simp add: nearest_def)
  show ?thesis
  proof (cases "quantum x = quantum y")
    case True
    have "x / 2 powi quantum y \<le> y / 2 powi quantum y"
      using assms(2) by (simp add: divide_right_mono)
    then have "round_even (x / 2 powi quantum y) \<le> round_even (y / 2 powi quantum y)"
      by (rule round_even_mono)
    then have "(of_int (round_even (x / 2 powi quantum y)) :: real) * 2 powi quantum y
               \<le> of_int (round_even (y / 2 powi quantum y)) * 2 powi quantum y"
      by (simp add: mult_right_mono)
    then show ?thesis by (simp add: nx ny True)
  next
    case False
    with quantum_mono[OF assms] have lt: "quantum x < quantum y" by simp
    have qy: "quantum y = exponent y - 23"
      using lt by (simp add: quantum_pos y assms(1) max_def split: if_splits)
    have ex: "exponent x < exponent y"
      using lt exponent_mono[OF assms]
      by (auto simp: quantum_pos assms(1) y max_def split: if_splits)
    define b :: real where "b = 2 powi (exponent y)"
    have xb: "x \<le> b"
    proof -
      have "x < 2 powi (exponent x + 1)" using exponent_bounds[OF assms(1)] by simp
      also have "\<dots> \<le> 2 powi (exponent y)" using ex by (intro power_int_increasing) simp_all
      finally show ?thesis by (simp add: b_def)
    qed
    have b_le_y: "b \<le> y" using exponent_bounds[OF y] by (simp add: b_def)
    have dx: "0 \<le> exponent y - quantum x" using lt qy by simp
    have bx: "b / 2 powi quantum x = of_int (2 ^ nat (exponent y - quantum x))"
    proof -
      have "b / 2 powi quantum x = 2 powi (exponent y - quantum x)"
        by (simp add: b_def power_int_diff)
      also have "\<dots> = 2 ^ nat (exponent y - quantum x)" using dx by (simp add: power_int_def)
      finally show ?thesis by simp
    qed
    have bq: "b / 2 powi quantum y = of_int (2 ^ 23)"
    proof -
      have "b / 2 powi quantum y = 2 powi (exponent y - quantum y)"
        by (simp add: b_def power_int_diff)
      also have "\<dots> = 2 powi 23" by (simp add: qy)
      finally show ?thesis by simp
    qed
    have "round_even (x / 2 powi quantum x) \<le> round_even (b / 2 powi quantum x)"
      using xb by (intro round_even_mono divide_right_mono) simp_all
    then have "round_even (x / 2 powi quantum x) \<le> 2 ^ nat (exponent y - quantum x)"
      by (simp only: bx round_even_of_int)
    then have "(of_int (round_even (x / 2 powi quantum x)) :: real)
                 \<le> of_int (2 ^ nat (exponent y - quantum x))"
      by (simp only: of_int_le_iff)
    then have "nearest x \<le> of_int (2 ^ nat (exponent y - quantum x)) * 2 powi quantum x"
      unfolding nx by (intro mult_right_mono) simp_all
    also have "\<dots> = b" using bx by (simp add: field_simps)
    finally have 1: "nearest x \<le> b" .
    have "round_even (b / 2 powi quantum y) \<le> round_even (y / 2 powi quantum y)"
      using b_le_y by (intro round_even_mono divide_right_mono) simp_all
    then have "2 ^ 23 \<le> round_even (y / 2 powi quantum y)"
      by (simp only: bq round_even_of_int)
    then have "(of_int (2 ^ 23) :: real) \<le> of_int (round_even (y / 2 powi quantum y))"
      by (simp only: of_int_le_iff)
    then have "of_int (2 ^ 23) * 2 powi quantum y \<le> nearest y"
      unfolding ny by (intro mult_right_mono) simp_all
    moreover have "of_int (2 ^ 23) * 2 powi quantum y = b" using bq by (simp add: field_simps)
    ultimately have 2: "b \<le> nearest y" by simp
    from 1 2 show ?thesis by simp
  qed
qed


lemma nearest_minus: "nearest (- x) = - nearest x"
proof -
  have q: "quantum (- x) = quantum x" by (simp add: quantum_def)
  have "- x / 2 powi quantum x = - (x / 2 powi quantum x)" by simp
  then show ?thesis
    by (simp add: nearest_def q round_even_minus)
qed

lemma nearest_nonneg:
  assumes "0 \<le> x"
  shows "0 \<le> nearest x"
proof (cases "x = 0")
  case True
  then show ?thesis by (simp add: nearest_def)
next
  case False
  have "0 \<le> x / 2 powi quantum x" using assms by simp
  then have "round_even 0 \<le> round_even (x / 2 powi quantum x)" by (rule round_even_mono)
  moreover have "round_even 0 = 0" using round_even_of_int[of 0] by simp
  ultimately have "0 \<le> round_even (x / 2 powi quantum x)" by simp
  then show ?thesis using False by (simp add: nearest_def)
qed

lemma nearest_mono:
  assumes "x \<le> y"
  shows "nearest x \<le> nearest y"
proof -
  consider "0 < x" | "x \<le> 0" "0 \<le> y" | "y < 0" by linarith
  then show ?thesis
  proof cases
    case 1
    then show ?thesis using assms by (rule nearest_mono_pos)
  next
    case 2
    from 2(1) have "0 \<le> nearest (- x)" by (intro nearest_nonneg) simp
    then have "nearest x \<le> 0" by (simp add: nearest_minus)
    with nearest_nonneg[OF 2(2)] show ?thesis by simp
  next
    case 3
    then have "0 < - y" and "- y \<le> - x" using assms by simp_all
    then have "nearest (- y) \<le> nearest (- x)" by (rule nearest_mono_pos)
    then show ?thesis by (simp add: nearest_minus)
  qed
qed

lemma round32_mono:
  assumes "x \<le> y"
  shows "fge (round32 y) (round32 x)"
  using nearest_mono[OF assms] by (simp add: round32_def Let_def)

lemma nearest_of_int:
  assumes "\<bar>k\<bar> < 2 ^ 24"
  shows "nearest (of_int k) = of_int k"
proof (cases "k = 0")
  case True
  then show ?thesis by (simp add: nearest_def)
next
  case False
  define n where "n = \<bar>k\<bar>"
  have n: "0 < n" "n < 2 ^ 24" using False assms by (simp_all add: n_def)
  have a: "\<bar>real_of_int k\<bar> = of_int n" by (simp add: n_def)
  have e: "exponent (of_int n) = bitlen n - 1" using n(1) by (simp add: exponent_def)
  from bitlen_bounds[OF n(1)] n(2) have "(2::int) ^ nat (bitlen n - 1) < 2 ^ 24" by simp
  then have "nat (bitlen n - 1) < 24" by (simp only: power_strict_increasing_iff)
  moreover have "0 \<le> bitlen n - 1" using n(1) by (simp add: bitlen_alt_def)
  ultimately have b: "0 \<le> bitlen n - 1" "bitlen n - 1 \<le> 23" by simp_all
  define m where "m = nat (23 - (bitlen n - 1))"
  have q: "quantum (of_int k) = - int m"
    using b by (simp add: quantum_def a e m_def)
  have p: "(2::real) powi (- int m) = 1 / 2 ^ m" by (simp add: power_int_minus field_simps)
  have "real_of_int k / 2 powi quantum (of_int k) = of_int (k * 2 ^ m)"
    by (simp add: q p)
  then have "round_even (real_of_int k / 2 powi quantum (of_int k)) = k * 2 ^ m"
    by (simp only: round_even_of_int)
  then show ?thesis using False by (simp add: nearest_def q p)
qed

lemma round32_of_int:
  assumes "\<bar>k\<bar> < 2 ^ 24"
  shows "round32 (of_int k) = Finite (of_int k)"
proof -
  have "\<bar>real_of_int k\<bar> < 2 ^ 24" using assms
    by (metis of_int_abs of_int_less_iff of_int_numeral of_int_power)
  then have "real_of_int k < 2 ^ 128" "- (2 ^ 128) < real_of_int k" by simp_all
  then show ?thesis by (simp add: round32_def nearest_of_int[OF assms])
qed

lemma float_of_int_exact: "\<bar>k\<bar> < 2 ^ 24 \<Longrightarrow> float_of_int k = Finite (of_int k)"
  by (simp add: float_of_int_def round32_of_int)


lemma exponent_unique:
  assumes "2 powi e \<le> x" and "x < 2 powi (e + 1)"
  shows "exponent x = e"
proof -
  have x: "0 < x" using assms(1) by (smt (verit) zero_less_power_int)
  note b = exponent_bounds[OF x]
  have "\<not> exponent x < e"
  proof
    assume "exponent x < e"
    then have "(2::real) powi (exponent x + 1) \<le> 2 powi e"
      by (intro power_int_increasing) simp_all
    with b assms(1) show False by linarith
  qed
  moreover have "\<not> e < exponent x"
  proof
    assume "e < exponent x"
    then have "(2::real) powi (e + 1) \<le> 2 powi (exponent x)"
      by (intro power_int_increasing) simp_all
    with b assms(2) show False by linarith
  qed
  ultimately show ?thesis by simp
qed

lemma nearest_multiple:
  assumes "0 < y" and "y = of_int m * 2 powi quantum y"
  shows "nearest y = y"
proof -
  have "y / 2 powi quantum y = of_int m"
    using assms(2) by (metis nonzero_eq_divide_eq power_int_eq_0_iff zero_neq_numeral)
  then have "round_even (y / 2 powi quantum y) = m" by (simp only: round_even_of_int)
  then show ?thesis using assms by (simp add: nearest_def)
qed

lemma nearest_idem_pos:
  assumes "0 < z"
  shows "nearest (nearest z) = nearest z"
proof -
  define e where "e = exponent z"
  define q where "q = quantum z"
  define m where "m = round_even (z / 2 powi q)"
  define y where "y = nearest z"
  have y: "y = of_int m * 2 powi q" using assms by (simp add: y_def nearest_def m_def q_def)
  have qd: "q = max (e - 23) (- 149)" using assms by (simp add: q_def e_def quantum_pos)
  from exponent_bounds[OF assms] have zb: "2 powi e \<le> z" "z < 2 powi (e + 1)"
    by (simp_all add: e_def)
  have ynn: "0 \<le> y" using assms by (simp add: y_def nearest_nonneg)
  show ?thesis
  proof (cases "y = 0")
    case True
    have "nearest 0 = 0" by (simp add: nearest_def)
    moreover from True have "nearest z = 0" by (simp add: y_def)
    ultimately show ?thesis by simp
  next
    case False
    with ynn have ypos: "0 < y" by simp
    have up: "0 \<le> e + 1 - q"
    proof (rule ccontr)
      assume "\<not> 0 \<le> e + 1 - q"
      then have "e + 1 - q \<le> - 1" by simp
      then have "(2::real) powi (e + 1 - q) \<le> 2 powi (- 1)"
        by (intro power_int_increasing) simp_all
      also have "(2::real) powi (- 1) = 1 / 2" by (simp add: power_int_minus)
      finally have h: "(2::real) powi (e + 1 - q) \<le> 1 / 2" .
      have "z / 2 powi q < 2 powi (e + 1) / 2 powi q"
        using zb(2) by (intro divide_strict_right_mono) simp_all
      then have "z / 2 powi q < 2 powi (e + 1 - q)" by (simp add: power_int_diff)
      with h have lt: "z / 2 powi q < 1 / 2" by linarith
      define v where "v = z / 2 powi q"
      have v: "v < 1 / 2" "0 \<le> v" using lt assms by (simp_all add: v_def)
      then have "\<lfloor>v\<rfloor> = 0" by linarith
      with v have "round_even v = 0" by (simp add: round_even_def Let_def)
      then have "m = 0" by (simp add: m_def v_def)
      with y False show False by simp
    qed
    have upper: "y \<le> 2 powi (e + 1)"
    proof -
      have "z / 2 powi q \<le> 2 powi (e + 1) / 2 powi q"
        using zb(2) by (intro divide_right_mono) simp_all
      also have "\<dots> = 2 powi (e + 1 - q)" by (simp add: power_int_diff)
      also have "\<dots> = of_int (2 ^ nat (e + 1 - q))" using up by (simp add: power_int_def)
      finally have "round_even (z / 2 powi q) \<le> round_even (of_int (2 ^ nat (e + 1 - q)))"
        by (rule round_even_mono)
      then have "m \<le> 2 ^ nat (e + 1 - q)" by (simp only: round_even_of_int m_def)
      then have "(of_int m :: real) \<le> of_int (2 ^ nat (e + 1 - q))" by (simp only: of_int_le_iff)
      then have "y \<le> of_int (2 ^ nat (e + 1 - q)) * 2 powi q"
        unfolding y by (intro mult_right_mono) simp_all
      also have "\<dots> = 2 powi (e + 1 - q) * 2 powi q" using up by (simp add: power_int_def)
      also have "\<dots> = 2 powi (e + 1)" by (simp flip: power_int_add)
      finally show ?thesis .
    qed
    show ?thesis
    proof (cases "q = e - 23")
      case True
      have lower: "2 powi e \<le> y"
      proof -
        have "2 powi e / 2 powi q \<le> z / 2 powi q"
          using zb(1) by (intro divide_right_mono) simp_all
        moreover have "(2::real) powi e / 2 powi q = of_int (2 ^ 23)"
          by (simp add: True power_int_diff flip: power_int_diff)
        ultimately have "round_even (of_int (2 ^ 23)) \<le> round_even (z / 2 powi q)"
          using round_even_mono by metis
        then have "2 ^ 23 \<le> m" by (simp only: round_even_of_int m_def)
        then have "(of_int (2 ^ 23) :: real) \<le> of_int m" by (simp only: of_int_le_iff)
        then have "of_int (2 ^ 23) * 2 powi q \<le> y"
          unfolding y by (intro mult_right_mono) simp_all
        moreover have "(of_int (2 ^ 23) :: real) = 2 powi 23" by simp
        moreover have "(2::real) powi 23 * 2 powi q = 2 powi (23 + q)"
          by (rule power_int_add[symmetric]) simp
        moreover have "23 + q = e" using True by simp
        ultimately show ?thesis by (simp only:)
      qed
      show ?thesis
      proof (cases "y = 2 powi (e + 1)")
        case eq: True
        have "2 powi (e + 1) \<le> y" "y < 2 powi (e + 1 + 1)"
          using eq by (simp_all add: power_int_add)
        then have "exponent y = e + 1" by (rule exponent_unique)
        then have qy: "quantum y = q + 1"
          using ypos qd True by (simp add: quantum_pos max_def split: if_splits)
        have "y = of_int (2 ^ 23) * 2 powi quantum y"
        proof -
          have "(of_int (2 ^ 23) :: real) = 2 powi 23" by simp
          moreover have "(2::real) powi 23 * 2 powi (q + 1) = 2 powi (23 + (q + 1))"
            by (rule power_int_add[symmetric]) simp
          moreover have "23 + (q + 1) = e + 1" using True by simp
          ultimately have k: "(of_int (2 ^ 23) :: real) * 2 powi (q + 1) = 2 powi (e + 1)"
            by (simp only:)
          show ?thesis unfolding qy by (simp only: eq k)
        qed
        with ypos have "nearest y = y" by (rule nearest_multiple)
        then show ?thesis by (simp add: y_def)
      next
        case ne: False
        with upper have "y < 2 powi (e + 1)" by simp
        with lower have "exponent y = e" by (rule exponent_unique)
        then have "quantum y = q" using ypos qd by (simp add: quantum_pos)
        with y have "y = of_int m * 2 powi quantum y" by simp
        with ypos have "nearest y = y" by (rule nearest_multiple)
        then show ?thesis by (simp add: y_def)
      qed
    next
      case False
      with qd have q: "q = - 149" and e: "e - 23 < - 149" by (simp_all add: max_def split: if_splits)
      have "(2::real) powi (e + 1) \<le> 2 powi (- 126)"
        using e by (intro power_int_increasing) simp_all
      with upper have "y \<le> 2 powi (- 126)" by simp
      moreover have "(2::real) powi (- 126) < 2 powi (- 126 + 1)"
        by (intro power_int_strict_increasing) simp_all
      ultimately have "y < 2 powi (- 126 + 1)" by simp
      then have "\<not> - 126 < exponent y"
        using exponent_bounds[OF ypos]
        by (smt (verit) power_int_increasing one_le_numeral zless_add1_eq)
      then have "quantum y = - 149" using ypos by (simp add: quantum_pos)
      with y q have "y = of_int m * 2 powi quantum y" by simp
      with ypos have "nearest y = y" by (rule nearest_multiple)
      then show ?thesis by (simp add: y_def)
    qed
  qed
qed

lemma nearest_idem: "nearest (nearest z) = nearest z"
proof -
  consider "0 < z" | "z = 0" | "0 < - z" by linarith
  then show ?thesis
  proof cases
    case 1
    then show ?thesis by (rule nearest_idem_pos)
  next
    case 2
    then show ?thesis by (simp add: nearest_def)
  next
    case 3
    from nearest_idem_pos[OF 3] show ?thesis by (simp add: nearest_minus)
  qed
qed

lemma nearest_scaled:
  assumes "0 < m" and "m < 2 ^ 24" and "- 149 \<le> j"
  shows "nearest (of_int m * 2 powi j) = of_int m * 2 powi j"
proof -
  define x where "x = real_of_int m * 2 powi j"
  define e where "e = exponent x"
  define q where "q = quantum x"
  have x: "0 < x" using assms(1) by (simp add: x_def)
  from exponent_bounds[OF x] have lo: "2 powi e \<le> x" by (simp add: e_def)
  have "real_of_int m < of_int (2 ^ 24)" using assms(2) by (simp only: of_int_less_iff)
  then have "x < 2 powi 24 * 2 powi j" unfolding x_def
    by (intro mult_strict_right_mono) simp_all
  also have "(2::real) powi 24 * 2 powi j = 2 powi (24 + j)"
    by (rule power_int_add[symmetric]) simp
  finally have hi: "x < 2 powi (24 + j)" .
  have "\<not> 24 + j \<le> e"
  proof
    assume "24 + j \<le> e"
    then have "(2::real) powi (24 + j) \<le> 2 powi e" by (intro power_int_increasing) simp_all
    with lo hi show False by linarith
  qed
  then have qj: "q \<le> j" using assms(3) x by (simp add: q_def e_def quantum_pos)
  have "(2::real) powi j = 2 powi (j - q) * 2 powi q"
  proof -
    have "(2::real) powi (j - q + q) = 2 powi (j - q) * 2 powi q"
      by (rule power_int_add) simp
    then show ?thesis by simp
  qed
  moreover have "(2::real) powi (j - q) = of_int (2 ^ nat (j - q))"
    using qj by (simp add: power_int_def)
  ultimately have "x = of_int (m * 2 ^ nat (j - q)) * 2 powi quantum x"
    by (simp add: x_def q_def)
  with x have "nearest x = x" by (rule nearest_multiple)
  then show ?thesis by (simp add: x_def)
qed

lemma nearest_smallest: "nearest (2 powi (- 149)) = 2 powi (- 149)"
  using nearest_scaled[of 1 "- 149"] by simp

text \<open>A positive binary32 number is at least \<open>2^-149\<close>.\<close>

lemma binary32_positive:
  assumes "nearest r = r" and "0 < r"
  shows "2 powi (- 149) \<le> r"
proof -
  define q where "q = quantum r"
  define m where "m = round_even (r / 2 powi q)"
  have r: "r = of_int m * 2 powi q" using assms by (simp add: nearest_def m_def q_def)
  have "0 < real_of_int m * 2 powi q" using r assms(2) by simp
  moreover have "0 < (2::real) powi q" by simp
  ultimately have "0 < real_of_int m" by (simp only: zero_less_mult_pos2)
  then have "1 \<le> m" by simp
  then have "(1::real) \<le> of_int m" by simp
  then have "1 * 2 powi q \<le> of_int m * (2::real) powi q"
    by (intro mult_right_mono) simp_all
  then have a: "2 powi q \<le> of_int m * (2::real) powi q" by (simp only: mult_1)
  have "- 149 \<le> q" by (simp add: q_def quantum_def)
  then have "(2::real) powi (- 149) \<le> 2 powi q" by (intro power_int_increasing) simp_all
  from this a have "(2::real) powi (- 149) \<le> of_int m * 2 powi q" by (rule order_trans)
  then show ?thesis by (simp only: r[symmetric])
qed

lemma round32_Finite:
  assumes "round32 a = Finite t"
  shows "t = nearest a" and "nearest t = t" and "t < 2 ^ 128" and "- (2 ^ 128) < t"
proof -
  from assms show t: "t = nearest a"
    by (simp add: round32_def Let_def split: if_splits)
  then show "nearest t = t" by (simp add: nearest_idem)
  from assms t show "t < 2 ^ 128" "- (2 ^ 128) < t"
    by (simp_all add: round32_def Let_def split: if_splits)
qed

lemma round32_zero: "round32 0 = Finite 0"
  by (simp add: round32_def nearest_def)

text \<open>Rounding keeps a value between the binary32 numbers \<open>-k\<close> and \<open>k\<close>.\<close>

lemma round32_between:
  assumes "- of_int k \<le> y" and "y \<le> of_int k" and "\<bar>k\<bar> < 2 ^ 24"
  shows "round32 y = Finite (nearest y)" and "- of_int k \<le> nearest y" and "nearest y \<le> of_int k"
proof -
  have k: "nearest (of_int k) = of_int k" using assms(3) by (rule nearest_of_int)
  have "nearest (- of_int k) = - of_int k" by (simp add: nearest_minus k)
  with nearest_mono[OF assms(1)] show lo: "- of_int k \<le> nearest y" by simp
  from nearest_mono[OF assms(2)] k show hi: "nearest y \<le> of_int k" by simp
  have "\<bar>real_of_int k\<bar> < 2 ^ 24" using assms(3)
    by (metis of_int_abs of_int_less_iff of_int_numeral of_int_power)
  then have "real_of_int k < 2 ^ 128" "- (2 ^ 128) < - real_of_int k" by simp_all
  with lo hi show "round32 y = Finite (nearest y)" by (simp add: round32_def Let_def)
qed

text \<open>A comparison with a binary32 number \<open>t\<close> is kept by rounding.\<close>

lemma fge_round32:
  assumes "nearest t = t" and "- (2 ^ 128) < t" and "t \<le> x"
  shows "fge (round32 x) (Finite t)"
proof -
  from nearest_mono[OF assms(3)] assms(1) have "t \<le> nearest x" by simp
  with assms(2) show ?thesis by (simp add: round32_def Let_def)
qed

text \<open>
  Whole days: \<open>k * 86400\<close> is \<open>k * 675 * 2^7\<close>, a binary32 number as long as \<open>k * 675\<close> has
  no more than 24 bits.
\<close>

lemma round32_days:
  assumes "0 \<le> k" and "k < 24856"
  shows "round32 (of_int k * 86400) = Finite (of_int k * 86400)"
proof (cases "k = 0")
  case True
  then show ?thesis by (simp add: round32_zero)
next
  case False
  then have m: "0 < k * 675" "k * 675 < 2 ^ 24" using assms by simp_all
  have e: "real_of_int k * 86400 = of_int (k * 675) * 2 powi 7" by simp
  have n: "nearest (real_of_int k * 86400) = real_of_int k * 86400"
    unfolding e using m by (intro nearest_scaled) simp_all
  have "real_of_int k < of_int 24856" using assms(2) by (simp only: of_int_less_iff)
  then have "real_of_int k * 86400 < 2 ^ 128" "- (2 ^ 128) < real_of_int k * 86400"
    using assms(1) by simp_all
  then show ?thesis by (simp add: round32_def Let_def n)
qed


section \<open>Rollout probability\<close>

text \<open>The integer constants of \<^verbatim>\<open>get_probability\<close> are binary32 numbers.\<close>

lemma float_of_int_constants:
  "float_of_int 0 = Finite 0" "float_of_int 1 = Finite 1" "float_of_int 2 = Finite 2"
  "float_of_int 3 = Finite 3" "float_of_int 600 = Finite 600"
  "float_of_int 86400 = Finite 86400"
  by code_simp+

lemma time_diff_example:
  "- (2 ^ 63) \<le> 1700000000 - date \<Longrightarrow> 1700000000 - date < 2 ^ 63 \<Longrightarrow>
     time_diff example_world date = Some (1700000000 - date)"
  by (simp add: time_diff_def example_world_def)

lemma get_probability_clock_fault:
  assumes "time_diff w date = Some diff" and "diff < 0" and "proc_uptime w = Some uptime"
  shows "get_probability w date priority p =
           Return (if flt uptime (Finite 600) then Finite 0 else powf_0_75 priority)
                  (fputs ''autoupdater: warning: clock seems to be incorrect.'' p)"
  using assms by (simp add: get_probability_def get_uptime_def float_of_int_constants)

text \<open>
  Claim C5: when \<open>diff = now - date\<close> is negative, in fallback mode and outside of it,
  \<^verbatim>\<open>get_probability\<close> prints the clock warning and returns 0 when the uptime is below
  600 seconds and \<^verbatim>\<open>powf(0.75f, priority)\<close> otherwise: for a finite priority, \<open>0.75\<close> to
  the power \<open>priority\<close> as a binary32 number. The state \<open>p\<close>, and with it the fallback
  flag, is arbitrary; the uptime is the one \<^verbatim>\<open>/proc/uptime\<close> gives.
\<close>

theorem clock_fault_probability:
  assumes "time_diff w date = Some diff" and "diff < 0" and "proc_uptime w = Some uptime"
  shows "get_probability w date priority p =
           Return (if flt uptime (Finite 600) then Finite 0 else powf_0_75 priority)
                  (fputs ''autoupdater: warning: clock seems to be incorrect.'' p)
       \<and> (uptime = Finite u \<and> priority = Finite y \<longrightarrow>
            get_probability w date priority p =
              Return (if u < 600 then Finite 0 else round32 (0.75 powr y))
                     (fputs ''autoupdater: warning: clock seems to be incorrect.'' p))"
  using get_probability_clock_fault[OF assms] by simp

lemma round32_examples:
  "round32 1 = Finite 1" "round32 (9 / 16) = Finite (9 / 16)"
  by code_simp+

theorem clock_fault_probability_witness:
  "get_probability example_world 1700000001 (Finite 2) example_loaded =
     Return (Finite (9 / 16))
       (fputs ''autoupdater: warning: clock seems to be incorrect.'' example_loaded)
   \<and> get_probability example_world 1700000001 (Finite 2) example_fallback =
     Return (Finite (9 / 16))
       (fputs ''autoupdater: warning: clock seems to be incorrect.'' example_fallback)
   \<and> get_probability (example_world\<lparr>proc_uptime := Some (Finite 599)\<rparr>) 1700000001 (Finite 2)
       example_fallback =
     Return (Finite 0)
       (fputs ''autoupdater: warning: clock seems to be incorrect.'' example_fallback)"
proof -
  have d: "time_diff example_world 1700000001 = Some (- 1)"
    using time_diff_example[of 1700000001] by simp
  have d': "time_diff (example_world\<lparr>proc_uptime := Some (Finite 599)\<rparr>) 1700000001 = Some (- 1)"
    using d by (simp add: time_diff_def)
  have u: "proc_uptime example_world = Some (Finite 3600)" by (simp add: example_world_def)
  have u': "proc_uptime (example_world\<lparr>proc_uptime := Some (Finite 599)\<rparr>) = Some (Finite 599)"
    by simp
  have n: "(- 1 :: int) < 0" by simp
  have r: "round32 (0.75 powr 2) = Finite (9 / 16)"
    by (simp add: power2_eq_square round32_examples)
  from clock_fault_probability [OF d n u, where u = 3600 and priority = "Finite 2" and y = 2
      and p = example_loaded]
    clock_fault_probability [OF d n u, where u = 3600 and priority = "Finite 2" and y = 2
      and p = example_fallback]
    clock_fault_probability [OF d' n u', where u = 599 and priority = "Finite 2" and y = 2
      and p = example_fallback] r
  show ?thesis by simp
qed

text \<open>
  Claim C4, as stated (in fallback mode, for every value of \<open>diff\<close>, the result is exactly
  0 when \<open>diff < priority * 86400 + 86400\<close>), fails for a negative \<open>diff\<close>: the test
  \<^verbatim>\<open>diff < 0\<close> comes before the test of the fallback flag. With \<open>diff = -1\<close>,
  priority 0 and an uptime of an hour, the result in fallback mode is 1.
\<close>

theorem fallback_negative_diff_counterexample:
  "fallback (G example_fallback)
   \<and> time_diff example_world 1700000001 = Some (- 1)
   \<and> real_of_int (- 1) < 0 * 86400 + 86400
   \<and> get_probability example_world 1700000001 (Finite 0) example_fallback =
       Return (Finite 1)
         (fputs ''autoupdater: warning: clock seems to be incorrect.'' example_fallback)"
proof -
  have d: "time_diff example_world 1700000001 = Some (- 1)"
    using time_diff_example[of 1700000001] by simp
  have u: "proc_uptime example_world = Some (Finite 3600)" by (simp add: example_world_def)
  have n: "(- 1 :: int) < 0" by simp
  from get_probability_clock_fault [OF d n u, of "Finite 0" example_fallback] d
  show ?thesis by (simp add: example_fallback_def example_loaded_def round32_examples)
qed

text \<open>
  It also fails where the conversion of \<open>diff\<close> to \<^verbatim>\<open>float\<close> rounds up to the threshold:
  with priority 199 the threshold is 17280000, and \<open>diff = 17279999\<close>, which is below it,
  becomes \<open>17280000.0f\<close> and gives 1.
\<close>

lemma fallback_rounding_example:
  "time_diff (example_world\<lparr>now := 17279999\<rparr>) 0 = Some 17279999
   \<and> real_of_int 17279999 < 199 * 86400 + 86400
   \<and> float_of_int 17279999 = Finite 17280000
   \<and> get_probability (example_world\<lparr>now := 17279999\<rparr>) 0 (Finite 199) example_fallback =
       Return (Finite 1) example_fallback"
proof -
  have d: "time_diff (example_world\<lparr>now := 17279999\<rparr>) 0 = Some 17279999"
    by (simp add: time_diff_def example_world_def)
  have c: "float_of_int 17279999 = Finite 17280000" by code_simp
  have s: "round32 17193600 = Finite 17193600" by code_simp
  have t: "round32 17280000 = Finite 17280000" by code_simp
  have f: "fallback (G example_fallback)" by (simp add: example_fallback_def)
  show ?thesis
    by (simp add: get_probability_def d c s t f float_of_int_constants)
qed

text \<open>
  In fallback mode and for \<open>diff \<ge> 0\<close> the result is decided by one comparison of binary32
  numbers.
\<close>

lemma get_probability_fallback:
  assumes "fallback (G p)" and "time_diff w date = Some diff" and "0 \<le> diff"
  shows "get_probability w date priority p =
           Return (if fge (float_of_int diff) (fadd (fmul priority (Finite 86400)) (Finite 86400))
                   then Finite 1 else Finite 0) p"
  using assms by (simp add: get_probability_def float_of_int_constants)

text \<open>The threshold \<^verbatim>\<open>seconds + 86400\<close> of an integer priority of whole days is exact.\<close>

lemma threshold_days:
  assumes "0 \<le> k" and "k < 24855"
  shows "fadd (fmul (Finite (of_int k)) (Finite 86400)) (Finite 86400) =
           Finite (of_int (k * 86400 + 86400))"
proof -
  have "round32 (of_int k * 86400) = Finite (of_int k * 86400)"
    using assms by (intro round32_days) simp_all
  moreover have "round32 (of_int (k + 1) * 86400) = Finite (of_int (k + 1) * 86400)"
    using assms by (intro round32_days) simp_all
  moreover have "real_of_int (k + 1) * 86400 = of_int k * 86400 + 86400" by simp
  ultimately show ?thesis by simp
qed

text \<open>
  Claim C4, amended. In fallback mode and for \<open>diff \<ge> 0\<close>, \<^verbatim>\<open>get_probability\<close> returns 1
  when \<^verbatim>\<open>(float)diff >= seconds + 86400\<close> holds of the binary32 numbers and 0 when it does
  not, printing nothing. With \<open>T\<close> the value of \<^verbatim>\<open>seconds + 86400\<close>: the result is 1 whenever
  \<open>diff \<ge> T\<close>, and it is 0 whenever \<open>diff < T\<close> and the conversion of \<open>diff\<close> to \<^verbatim>\<open>float\<close>
  is exact, which it is for \<open>diff < 2^24\<close>. For a priority of \<open>k\<close> whole days,
  \<open>0 \<le> k < 24855\<close>, \<open>T\<close> is \<open>k * 86400 + 86400\<close>.
\<close>

theorem fallback_probability:
  assumes "fallback (G p)" and "time_diff w date = Some diff" and "0 \<le> diff"
  shows "get_probability w date priority p =
           Return (if fge (float_of_int diff) (fadd (fmul priority (Finite 86400)) (Finite 86400))
                   then Finite 1 else Finite 0) p
       \<and> (fadd (fmul priority (Finite 86400)) (Finite 86400) = Finite T \<longrightarrow>
            (T \<le> of_int diff \<longrightarrow> get_probability w date priority p = Return (Finite 1) p)
          \<and> (of_int diff < T \<and> float_of_int diff = Finite (of_int diff) \<longrightarrow>
               get_probability w date priority p = Return (Finite 0) p))
       \<and> (diff < 2 ^ 24 \<longrightarrow> float_of_int diff = Finite (of_int diff))
       \<and> (priority = Finite (of_int k) \<and> 0 \<le> k \<and> k < 24855 \<longrightarrow>
            fadd (fmul priority (Finite 86400)) (Finite 86400) =
              Finite (of_int (k * 86400 + 86400)))"
proof -
  note eq = get_probability_fallback[OF assms, of priority]
  have one: "get_probability w date priority p = Return (Finite 1) p"
    if t: "fadd (fmul priority (Finite 86400)) (Finite 86400) = Finite T" and le: "T \<le> of_int diff"
  proof -
    obtain a where "fmul priority (Finite 86400) = Finite a"
      using t by (cases "fmul priority (Finite 86400)") simp_all
    with t have "round32 (a + 86400) = Finite T" by simp
    from round32_Finite(2,4)[OF this] le
    have "fge (round32 (of_int diff)) (Finite T)" by (rule fge_round32)
    then show ?thesis by (simp add: eq t float_of_int_def)
  qed
  have zero: "get_probability w date priority p = Return (Finite 0) p"
    if "fadd (fmul priority (Finite 86400)) (Finite 86400) = Finite T"
      and "of_int diff < T" and "float_of_int diff = Finite (of_int diff)"
    using that by (simp add: eq)
  have exact: "float_of_int diff = Finite (of_int diff)" if "diff < 2 ^ 24"
    using that assms(3) by (intro float_of_int_exact) simp
  from eq one zero exact threshold_days[of k] show ?thesis by blast
qed

text \<open>
  Priority 1: the threshold is 172800 seconds; the result is 0 one second before it and 1
  from it on.
\<close>

theorem fallback_probability_witness:
  "get_probability (example_world\<lparr>now := 172799\<rparr>) 0 (Finite 1) example_fallback =
     Return (Finite 0) example_fallback
   \<and> get_probability (example_world\<lparr>now := 172800\<rparr>) 0 (Finite 1) example_fallback =
     Return (Finite 1) example_fallback
   \<and> get_probability (example_world\<lparr>now := 1700000000\<rparr>) 0 (Finite 1) example_fallback =
     Return (Finite 1) example_fallback"
proof -
  have f: "fallback (G example_fallback)" by (simp add: example_fallback_def)
  have d: "time_diff (example_world\<lparr>now := t\<rparr>) 0 = Some t" if "0 \<le> t" and "t < 2 ^ 63" for t
    using that by (simp add: time_diff_def example_world_def)
  have d1: "time_diff (example_world\<lparr>now := 172799\<rparr>) 0 = Some 172799" by (rule d) simp_all
  have d2: "time_diff (example_world\<lparr>now := 172800\<rparr>) 0 = Some 172800" by (rule d) simp_all
  have d3: "time_diff (example_world\<lparr>now := 1700000000\<rparr>) 0 = Some 1700000000"
    by (rule d) simp_all
  note t1 = fallback_probability [OF f d1, where priority = "Finite 1" and k = 1 and T = 172800]
  note t2 = fallback_probability [OF f d2, where priority = "Finite 1" and k = 1 and T = 172800]
  note t3 = fallback_probability [OF f d3, where priority = "Finite 1" and k = 1 and T = 172800]
  have T: "fadd (fmul (Finite 1) (Finite 86400)) (Finite 86400) = Finite 172800"
    using t1[THEN conjunct2, THEN conjunct2, THEN conjunct2] by simp
  have e: "float_of_int 172799 = Finite (of_int 172799)"
    using t1[THEN conjunct2, THEN conjunct2, THEN conjunct1] by simp
  have "get_probability (example_world\<lparr>now := 172799\<rparr>) 0 (Finite 1) example_fallback =
          Return (Finite 0) example_fallback"
    using t1[THEN conjunct2, THEN conjunct1] T e by simp
  moreover
  have "get_probability (example_world\<lparr>now := 172800\<rparr>) 0 (Finite 1) example_fallback =
          Return (Finite 1) example_fallback"
    using t2[THEN conjunct2, THEN conjunct1] T by simp
  moreover
  have "get_probability (example_world\<lparr>now := 1700000000\<rparr>) 0 (Finite 1) example_fallback =
          Return (Finite 1) example_fallback"
    using t3[THEN conjunct2, THEN conjunct1] T by simp
  ultimately show ?thesis by simp
qed

text \<open>
  Outside fallback mode and for \<open>diff \<ge> 0\<close> the result is 1 when \<^verbatim>\<open>(float)diff >= seconds\<close>,
  and otherwise the polynomial, every operation of which is rounded.
\<close>

lemma get_probability_ramp:
  assumes "\<not> fallback (G p)" and "time_diff w date = Some diff" and "0 \<le> diff"
  shows "get_probability w date priority p =
           Return (if fge (float_of_int diff) (fmul priority (Finite 86400)) then Finite 1
                   else let x = fdiv (float_of_int diff) (fmul priority (Finite 86400))
                        in fsub (fmul (fmul (Finite 3) x) x)
                                (fmul (fmul (fmul (Finite 2) x) x) x)) p"
  using assms by (simp add: get_probability_def float_of_int_constants Let_def)

lemma time_diff_epoch:
  "0 \<le> t \<Longrightarrow> t < 2 ^ 63 \<Longrightarrow> time_diff (example_world\<lparr>now := t\<rparr>) 0 = Some t"
  by (simp add: time_diff_def example_world_def)

lemma not_fallback_example: "\<not> fallback (G example_loaded)"
  by (simp add: example_loaded_def G_init_def)

text \<open>
  The evaluation at priority 1 (\<^verbatim>\<open>seconds\<close> is 86400) for \<open>diff\<close> 86390, 86112 and 86113:
  the quotient \<open>x\<close>, and the polynomial at that \<open>x\<close>.
\<close>

lemma ramp_quotients:
  "fmul (Finite 1) (Finite 86400) = Finite 86400"
  "float_of_int 86390 = Finite 86390" "float_of_int 86112 = Finite 86112"
  "float_of_int 86113 = Finite 86113"
  "fge (Finite 86390) (Finite 86400) = False" "fge (Finite 86112) (Finite 86400) = False"
  "fge (Finite 86113) (Finite 86400) = False"
  "fdiv (Finite 86390) (Finite 86400) = Finite (8387637 / 8388608)"
  "fdiv (Finite 86112) (Finite 86400) = Finite (4180323 / 4194304)"
  "fdiv (Finite 86113) (Finite 86400) = Finite (8360743 / 8388608)"
  by code_simp+

lemma ramp_86390:
  "fmul (fmul (Finite 3) (Finite (8387637 / 8388608))) (Finite (8387637 / 8388608)) =
     Finite (393125 / 131072)"
  "fmul (fmul (fmul (Finite 2) (Finite (8387637 / 8388608))) (Finite (8387637 / 8388608)))
        (Finite (8387637 / 8388608)) = Finite (8385695 / 4194304)"
  "fsub (Finite (393125 / 131072)) (Finite (8385695 / 4194304)) = Finite (4194305 / 4194304)"
  by code_simp+

lemma ramp_86112:
  "fmul (fmul (Finite 3) (Finite (4180323 / 4194304))) (Finite (4180323 / 4194304)) =
     Finite (6249583 / 2097152)"
  "fmul (fmul (fmul (Finite 2) (Finite (4180323 / 4194304))) (Finite (4180323 / 4194304)))
        (Finite (4180323 / 4194304)) = Finite (8305001 / 4194304)"
  "fsub (Finite (6249583 / 2097152)) (Finite (8305001 / 4194304)) = Finite (4194165 / 4194304)"
  by code_simp+

lemma ramp_86113:
  "fmul (fmul (Finite 3) (Finite (8360743 / 8388608))) (Finite (8360743 / 8388608)) =
     Finite (12499455 / 4194304)"
  "fmul (fmul (fmul (Finite 2) (Finite (8360743 / 8388608))) (Finite (8360743 / 8388608)))
        (Finite (8360743 / 8388608)) = Finite (16610581 / 8388608)"
  "fsub (Finite (12499455 / 4194304)) (Finite (16610581 / 8388608)) =
     Finite (8388329 / 8388608)"
  by code_simp+

text \<open>
  Claim C6, as stated, fails in two of its parts. Outside fallback mode, with priority 1
  (a window of 86400 seconds) and \<open>diff = 86390\<close>, the result is \<open>1 + 2^-22\<close>: it is not in
  \<open>[0,1]\<close>, and it is not the value of \<open>3x\<^sup>2 - 2x\<^sup>3\<close> at any \<open>x\<close> between 0 and 1, which is at
  most 1. The result for \<open>diff = 86113\<close> is smaller than the one for \<open>diff = 86112\<close>: it is
  not monotone in \<open>diff\<close>.
\<close>

theorem ramp_rounding_counterexample:
  "\<not> fallback (G example_loaded)
   \<and> time_diff (example_world\<lparr>now := 86390\<rparr>) 0 = Some 86390
   \<and> real_of_int 86390 < 1 * 86400
   \<and> get_probability (example_world\<lparr>now := 86390\<rparr>) 0 (Finite 1) example_loaded =
       Return (Finite (4194305 / 4194304)) example_loaded
   \<and> (1::real) < 4194305 / 4194304
   \<and> smoothstep (86390 / (1 * 86400)) < 4194305 / 4194304
   \<and> get_probability (example_world\<lparr>now := 86112\<rparr>) 0 (Finite 1) example_loaded =
       Return (Finite (4194165 / 4194304)) example_loaded
   \<and> get_probability (example_world\<lparr>now := 86113\<rparr>) 0 (Finite 1) example_loaded =
       Return (Finite (8388329 / 8388608)) example_loaded
   \<and> (8388329 / 8388608 :: real) < 4194165 / 4194304"
proof -
  have d: "time_diff (example_world\<lparr>now := 86390\<rparr>) 0 = Some 86390"
    "time_diff (example_world\<lparr>now := 86112\<rparr>) 0 = Some 86112"
    "time_diff (example_world\<lparr>now := 86113\<rparr>) 0 = Some 86113"
    by (simp_all add: time_diff_epoch)
  have "get_probability (example_world\<lparr>now := 86390\<rparr>) 0 (Finite 1) example_loaded =
          Return (Finite (4194305 / 4194304)) example_loaded"
    by (simp only: get_probability_ramp[OF not_fallback_example d(1)] ramp_quotients
          ramp_86390 Let_def if_False)
  moreover
  have "get_probability (example_world\<lparr>now := 86112\<rparr>) 0 (Finite 1) example_loaded =
          Return (Finite (4194165 / 4194304)) example_loaded"
    by (simp only: get_probability_ramp[OF not_fallback_example d(2)] ramp_quotients
          ramp_86112 Let_def if_False)
  moreover
  have "get_probability (example_world\<lparr>now := 86113\<rparr>) 0 (Finite 1) example_loaded =
          Return (Finite (8388329 / 8388608)) example_loaded"
    by (simp only: get_probability_ramp[OF not_fallback_example d(3)] ramp_quotients
          ramp_86113 Let_def if_False)
  moreover have "smoothstep (86390 / (1 * 86400)) < 4194305 / 4194304"
    by (simp add: smoothstep_def power2_eq_square power3_eq_cube)
  ultimately show ?thesis by (simp add: not_fallback_example d)
qed

text \<open>The polynomial of a binary32 number between 0 and 1 is finite and not negative.\<close>

lemma ramp_nonneg:
  assumes "0 \<le> x" and "x \<le> 1"
  shows "\<exists>v. fsub (fmul (fmul (Finite 3) (Finite x)) (Finite x))
                   (fmul (fmul (fmul (Finite 2) (Finite x)) (Finite x)) (Finite x)) = Finite v
             \<and> 0 \<le> v"
proof -
  define t3 where "t3 = nearest (3 * x)"
  define a where "a = nearest (t3 * x)"
  define t2 where "t2 = nearest (2 * x)"
  define u where "u = nearest (t2 * x)"
  define b where "b = nearest (u * x)"
  have r3: "round32 (3 * x) = Finite t3" "0 \<le> t3" "t3 \<le> 3"
    using round32_between[of 3 "3 * x"] nearest_nonneg[of "3 * x"] assms by (simp_all add: t3_def)
  have "t3 * x \<le> 3 * 1" using r3 assms by (intro mult_mono) simp_all
  moreover have "0 \<le> t3 * x" using r3 assms by simp
  ultimately have ra: "round32 (t3 * x) = Finite a" "0 \<le> a" "a \<le> 3"
    using round32_between[of 3 "t3 * x"] nearest_nonneg[of "t3 * x"] by (simp_all add: a_def)
  have r2: "round32 (2 * x) = Finite t2" "0 \<le> t2" "t2 \<le> 3"
    using round32_between[of 3 "2 * x"] nearest_nonneg[of "2 * x"] assms by (simp_all add: t2_def)
  have t23: "t2 \<le> t3" unfolding t2_def t3_def using assms by (intro nearest_mono) simp
  have "t2 * x \<le> t2 * 1" using r2 assms by (intro mult_left_mono) simp_all
  then have tx: "t2 * x \<le> t2" by simp
  from nearest_mono[OF tx] have ut: "u \<le> t2" by (simp add: u_def t2_def nearest_idem)
  have ux: "0 \<le> t2 * x" using r2 assms by simp
  with tx r2 have ru: "round32 (t2 * x) = Finite u" "0 \<le> u"
    using round32_between[of 3 "t2 * x"] nearest_nonneg[of "t2 * x"] by (simp_all add: u_def)
  have "u * x \<le> t3 * x" using ut t23 assms by (intro mult_right_mono) simp_all
  from nearest_mono[OF this] have ba: "b \<le> a" by (simp add: a_def b_def)
  have "u * x \<le> 3 * 1" using ut r2 ru assms by (intro mult_mono) simp_all
  moreover have "0 \<le> u * x" using ru assms by simp
  ultimately have rb: "round32 (u * x) = Finite b" "0 \<le> b"
    using round32_between[of 3 "u * x"] nearest_nonneg[of "u * x"] by (simp_all add: b_def)
  have "0 \<le> a - b" "a - b \<le> 3" using ba ra rb by simp_all
  then have rv: "round32 (a - b) = Finite (nearest (a - b))" "0 \<le> nearest (a - b)"
    using round32_between[of 3 "a - b"] nearest_nonneg[of "a - b"] by simp_all
  have "fsub (fmul (fmul (Finite 3) (Finite x)) (Finite x))
             (fmul (fmul (fmul (Finite 2) (Finite x)) (Finite x)) (Finite x)) =
          Finite (nearest (a - b))"
    by (simp add: fsub_def r3 ra r2 ru rb rv)
  with rv(2) show ?thesis by blast
qed

text \<open>
  Claim C6, amended. Outside fallback mode and for \<open>diff \<ge> 0\<close>, \<^verbatim>\<open>get_probability\<close> prints
  nothing and returns 1 when \<^verbatim>\<open>(float)diff >= seconds\<close> holds of the binary32 numbers, and
  otherwise the binary32 value of \<^verbatim>\<open>3*x*x - 2*x*x*x\<close> at \<^verbatim>\<open>x = diff/seconds\<close>, each operation
  rounded. For a finite priority \<open>r\<close>: the result is exactly 1 whenever
  \<open>diff \<ge> r * 86400\<close>; it is exactly 0 at \<open>diff = 0\<close> when \<open>r\<close> is at least \<open>2^-149\<close>, the
  smallest positive binary32 number; and it is always a finite number that is not
  negative. It need not be at most 1 and need not be monotone in \<open>diff\<close>.
\<close>

theorem ramp_probability:
  assumes "\<not> fallback (G p)" and "time_diff w date = Some diff" and "0 \<le> diff"
  shows "get_probability w date priority p =
           Return (if fge (float_of_int diff) (fmul priority (Finite 86400)) then Finite 1
                   else let x = fdiv (float_of_int diff) (fmul priority (Finite 86400))
                        in fsub (fmul (fmul (Finite 3) x) x)
                                (fmul (fmul (fmul (Finite 2) x) x) x)) p
       \<and> (priority = Finite r \<and> r * 86400 \<le> of_int diff \<longrightarrow>
            get_probability w date priority p = Return (Finite 1) p)
       \<and> (priority = Finite r \<and> 2 powi (- 149) \<le> r \<and> diff = 0 \<longrightarrow>
            get_probability w date priority p = Return (Finite 0) p)
       \<and> (priority = Finite r \<longrightarrow>
            (\<exists>v. get_probability w date priority p = Return (Finite v) p \<and> 0 \<le> v))"
proof -
  note eq = get_probability_ramp[OF assms]
  have one: "get_probability w date priority p = Return (Finite 1) p"
    if "priority = Finite r" and "r * 86400 \<le> of_int diff"
    using round32_mono[OF that(2)] that(1) by (simp add: eq float_of_int_def)
  have zero: "get_probability w date priority p = Return (Finite 0) p"
    if pr: "priority = Finite r" and r: "2 powi (- 149) \<le> r" and z: "diff = 0"
  proof -
    have "(2::real) powi (- 149) * 1 \<le> r * 86400"
      using r by (intro mult_mono) simp_all
    then have "(2::real) powi (- 149) \<le> r * 86400" by (simp only: mult_1_right)
    from nearest_mono[OF this] have "2 powi (- 149) \<le> nearest (r * 86400)"
      by (simp only: nearest_smallest)
    moreover have "0 < (2::real) powi (- 149)" by simp
    ultimately have s: "0 < nearest (r * 86400)" by linarith
    show ?thesis
    proof (cases "round32 (r * 86400)")
      case (Finite s')
      with s have "0 < s'" by (simp add: round32_def Let_def split: if_splits)
      with Finite show ?thesis
        by (simp add: eq pr z float_of_int_constants round32_zero fsub_def Let_def)
    next
      case PlusInfinity
      then show ?thesis
        by (simp add: eq pr z float_of_int_constants round32_zero fsub_def Let_def)
    next
      case MinusInfinity
      with s show ?thesis by (simp add: round32_def Let_def split: if_splits)
    next
      case NaN
      then show ?thesis by (simp add: round32_def Let_def split: if_splits)
    qed
  qed
  have nonneg: "\<exists>v. get_probability w date priority p = Return (Finite v) p \<and> 0 \<le> v"
    if pr: "priority = Finite r"
  proof (cases "fge (float_of_int diff) (fmul priority (Finite 86400))")
    case True
    then have "get_probability w date priority p = Return (Finite 1) p" by (simp add: eq)
    then show ?thesis by simp
  next
    case False
    have dn: "0 \<le> nearest (of_int diff)" using assms(3) by (intro nearest_nonneg) simp
    then obtain d where d: "float_of_int diff = Finite d" "0 \<le> d"
      using False pr
      by (cases "round32 (r * 86400)")
         (auto simp: float_of_int_def round32_def Let_def split: if_splits)
    show ?thesis
    proof (cases "round32 (r * 86400)")
      case (Finite s)
      with False d pr have ds: "d < s" by simp
      with d have s: "0 < s" by simp
      have q: "0 \<le> d / s" "d / s \<le> 1" using d ds s by simp_all
      define x where "x = nearest (d / s)"
      have x: "round32 (d / s) = Finite x" "0 \<le> x" "x \<le> 1"
        using round32_between[of 1 "d / s"] nearest_nonneg[of "d / s"] q by (simp_all add: x_def)
      from ramp_nonneg[OF x(2,3)] obtain v where
        "fsub (fmul (fmul (Finite 3) (Finite x)) (Finite x))
              (fmul (fmul (fmul (Finite 2) (Finite x)) (Finite x)) (Finite x)) = Finite v"
        and "0 \<le> v" by blast
      moreover have "fdiv (float_of_int diff) (fmul priority (Finite 86400)) = Finite x"
        using Finite s d pr x by simp
      ultimately have "get_probability w date priority p = Return (Finite v) p \<and> 0 \<le> v"
        using False by (simp add: eq Let_def)
      then show ?thesis by blast
    next
      case PlusInfinity
      then have "fdiv (float_of_int diff) (fmul priority (Finite 86400)) = Finite 0"
        using d pr by simp
      then have "get_probability w date priority p = Return (Finite 0) p"
        using False by (simp add: eq Let_def round32_zero fsub_def)
      then show ?thesis by simp
    next
      case MinusInfinity
      with False d pr show ?thesis by simp
    next
      case NaN
      then show ?thesis by (simp add: round32_def Let_def split: if_splits)
    qed
  qed
  from eq[of priority] one zero nonneg show ?thesis by blast
qed

lemma ramp_half_day:
  "float_of_int 43200 = Finite 43200" "fge (Finite 43200) (Finite 86400) = False"
  "fdiv (Finite 43200) (Finite 86400) = Finite (1 / 2)"
  "fmul (fmul (Finite 3) (Finite (1 / 2))) (Finite (1 / 2)) = Finite (3 / 4)"
  "fmul (fmul (fmul (Finite 2) (Finite (1 / 2))) (Finite (1 / 2))) (Finite (1 / 2)) =
     Finite (1 / 4)"
  "fsub (Finite (3 / 4)) (Finite (1 / 4)) = Finite (1 / 2)"
  by code_simp+

text \<open>
  Priority 1: half way through the day the result is \<open>1/2\<close>, the value of \<open>3x\<^sup>2 - 2x\<^sup>3\<close> at
  \<open>x = 1/2\<close>; after the whole day it is 1; at \<open>diff = 0\<close> it is 0.
\<close>

theorem ramp_probability_witness:
  "get_probability (example_world\<lparr>now := 43200\<rparr>) 0 (Finite 1) example_loaded =
     Return (Finite (1 / 2)) example_loaded
   \<and> smoothstep (43200 / (1 * 86400)) = 1 / 2
   \<and> get_probability (example_world\<lparr>now := 86400\<rparr>) 0 (Finite 1) example_loaded =
     Return (Finite 1) example_loaded
   \<and> get_probability (example_world\<lparr>now := 0\<rparr>) 0 (Finite 1) example_loaded =
     Return (Finite 0) example_loaded
   \<and> (\<exists>v. get_probability (example_world\<lparr>now := 86390\<rparr>) 0 (Finite 1) example_loaded =
            Return (Finite v) example_loaded \<and> 0 \<le> v)"
proof -
  have d1: "time_diff (example_world\<lparr>now := 43200\<rparr>) 0 = Some 43200"
    by (rule time_diff_epoch) simp_all
  have d2: "time_diff (example_world\<lparr>now := 86400\<rparr>) 0 = Some 86400"
    by (rule time_diff_epoch) simp_all
  have d3: "time_diff (example_world\<lparr>now := 0\<rparr>) 0 = Some 0"
    by (rule time_diff_epoch) simp_all
  have d4: "time_diff (example_world\<lparr>now := 86390\<rparr>) 0 = Some 86390"
    by (rule time_diff_epoch) simp_all
  note t1 = ramp_probability [OF not_fallback_example d1, where priority = "Finite 1" and r = 1]
  note t2 = ramp_probability [OF not_fallback_example d2, where priority = "Finite 1" and r = 1]
  note t3 = ramp_probability [OF not_fallback_example d3, where priority = "Finite 1" and r = 1]
  note t4 = ramp_probability [OF not_fallback_example d4, where priority = "Finite 1" and r = 1]
  have "get_probability (example_world\<lparr>now := 43200\<rparr>) 0 (Finite 1) example_loaded =
          Return (Finite (1 / 2)) example_loaded"
    using t1[THEN conjunct1]
    by (simp only: ramp_quotients ramp_half_day Let_def if_False simp_thms)
  moreover have "smoothstep (43200 / (1 * 86400)) = 1 / 2"
    by (simp add: smoothstep_def power2_eq_square power3_eq_cube)
  moreover
  have "get_probability (example_world\<lparr>now := 86400\<rparr>) 0 (Finite 1) example_loaded =
          Return (Finite 1) example_loaded"
    using t2[THEN conjunct2, THEN conjunct1] by simp
  moreover
  have "get_probability (example_world\<lparr>now := 0\<rparr>) 0 (Finite 1) example_loaded =
          Return (Finite 0) example_loaded"
    using t3[THEN conjunct2, THEN conjunct2, THEN conjunct1]
    by (simp add: power_int_minus)
  moreover
  have "\<exists>v. get_probability (example_world\<lparr>now := 86390\<rparr>) 0 (Finite 1) example_loaded =
            Return (Finite v) example_loaded \<and> 0 \<le> v"
    using t4[THEN conjunct2, THEN conjunct2, THEN conjunct2] by simp
  ultimately show ?thesis by simp
qed

section \<open>The orchestrator\<close>

text \<open>
  Claim C7: when the steps before the mirror loop return and the array loaded from the
  configuration holds \<open>N\<close> mirrors (no entry is \<^verbatim>\<open>NULL\<close>), the run calls
  \<^verbatim>\<open>autoupdate\<close> exactly \<open>N\<close> times, once for each slot of the array and with the mirror
  of that slot, whatever \<^verbatim>\<open>random()\<close> returns; every attempt returns to the loop, the run
  then prints "no usable mirror found" and ends with status 1.
\<close>

theorem every_mirror_attempted_once:
  assumes "startup w = Return () p" and "None \<notin> set (mirrors (G p))"
  shows "exit_status (main w) = Some 1
       \<and> length (attempts (main w)) = n_mirrors (G p)
       \<and> distinct (map fst (attempts (main w)))
       \<and> set (map fst (attempts (main w))) = {..<n_mirrors (G p)}
       \<and> map snd (attempts (main w)) = map (\<lambda>q. mirrors (G p) ! q) (map fst (attempts (main w)))
       \<and> messages (main w) = [''autoupdater: no usable mirror found'']"
proof -
  from main_after_startup[OF assms] obtain p' tr where
    m: "main w = Exit 1 (fputs ''autoupdater: no usable mirror found'' p')" and
    tr: "trace p' = tr" "length tr = n_mirrors (G p)" "distinct (map fst tr)"
      "set (map fst tr) = {..<n_mirrors (G p)}" "\<forall>(q, m) \<in> set tr. m = mirrors (G p) ! q"
      "stderr p' = []"
    by blast
  have a: "attempts (main w) = tr"
    by (simp add: m attempts_def final_proc_def fputs_def tr(1))
  have e: "exit_status (main w) = Some 1"
    by (simp add: m exit_status_def)
  have g: "messages (main w) = [''autoupdater: no usable mirror found'']"
    by (simp add: m messages_def final_proc_def fputs_def tr(6))
  have "map snd tr = map (\<lambda>q. mirrors (G p) ! q) (map fst tr)"
    using tr(5) by (auto simp: list_eq_iff_nth_eq dest!: nth_mem)
  with tr(2,3,4) show ?thesis
    unfolding a by (intro conjI e g) simp_all
qed

theorem every_mirror_attempted_once_witness:
  "exit_status (main example_world) = Some 1
   \<and> length (attempts (main example_world)) = 3
   \<and> distinct (map fst (attempts (main example_world)))
   \<and> set (map fst (attempts (main example_world))) = {..<3}
   \<and> messages (main example_world) = [''autoupdater: no usable mirror found'']"
  using every_mirror_attempted_once [OF startup_example]
  by (simp add: example_loaded_def example_mirrors_def)

text \<open>
  Claim C2, as stated (the hooks are invoked for each selected mirror, and the run ends
  successfully at the first mirror for which all of them succeed), fails: \<^verbatim>\<open>autoupdate\<close>
  has an empty body. In the example installation the hooks would fail the download from
  the first two mirrors and succeed at every stage for the third; the third mirror is
  drawn first, the two others are still attempted, and the run ends with status 1 and
  "no usable mirror found".
\<close>

theorem third_mirror_success_counterexample:
  "\<not> hook_ok example_world download_d_dir (example_mirrors ! 0)
   \<and> \<not> hook_ok example_world download_d_dir (example_mirrors ! 1)
   \<and> hook_ok example_world download_d_dir (example_mirrors ! 2)
   \<and> hook_ok example_world upgrade_d_dir (example_mirrors ! 2)
   \<and> exit_status (main example_world) = Some 1
   \<and> map snd (attempts (main example_world))
       = [Some (example_mirrors ! 2), Some (example_mirrors ! 0), Some (example_mirrors ! 1)]
   \<and> messages (main example_world) = [''autoupdater: no usable mirror found'']"
  by (simp add: main_example exit_status_def attempts_def messages_def final_proc_def fputs_def
      example_loaded_def)
    (simp add: example_world_def example_mirrors_def)

text \<open>
  Claim C2, amended: for each selected mirror the loop calls \<^verbatim>\<open>autoupdate\<close>, which runs
  no hook and returns with the state unchanged, so that no run that enters the mirror loop
  ends with status 0; with 3 mirrors exactly 3 attempts are made and the run ends with
  status 1 and "no usable mirror found".
\<close>

theorem autoupdate_runs_no_hook:
  "autoupdate mirror p = Return () p
   \<and> (startup w = Return () p0 \<longrightarrow> exit_status (main w) \<noteq> Some 0)
   \<and> (startup w = Return () p0 \<and> None \<notin> set (mirrors (G p0)) \<and> n_mirrors (G p0) = 3 \<longrightarrow>
        exit_status (main w) = Some 1 \<and> length (attempts (main w)) = 3
        \<and> messages (main w) = [''autoupdater: no usable mirror found''])"
proof (intro conjI impI)
  show "autoupdate mirror p = Return () p" by (simp add: autoupdate_def)
next
  assume s: "startup w = Return () p0"
  show "exit_status (main w) \<noteq> Some 0"
    using mirror_loop_no_exit[of w "n_mirrors (G p0)" p0]
    by (cases "mirror_loop w (n_mirrors (G p0)) p0")
      (auto simp: main_startup s exit_status_def)
next
  assume h: "startup w = Return () p0 \<and> None \<notin> set (mirrors (G p0)) \<and> n_mirrors (G p0) = 3"
  then have s: "startup w = Return () p0" and n: "None \<notin> set (mirrors (G p0))" by simp_all
  from main_after_startup[OF s n] obtain p' where
    m: "main w = Exit 1 (fputs ''autoupdater: no usable mirror found'' p')" and
    l: "length (trace p') = n_mirrors (G p0)" and e: "stderr p' = []"
    by blast
  from m l e h show "exit_status (main w) = Some 1" "length (attempts (main w)) = 3"
    "messages (main w) = [''autoupdater: no usable mirror found'']"
    by (simp_all add: exit_status_def attempts_def messages_def final_proc_def fputs_def)
qed

theorem autoupdate_runs_no_hook_witness:
  "autoupdate (Some (example_mirrors ! 2)) example_loaded = Return () example_loaded
   \<and> exit_status (main example_world) \<noteq> Some 0
   \<and> exit_status (main example_world) = Some 1
   \<and> length (attempts (main example_world)) = 3
   \<and> messages (main example_world) = [''autoupdater: no usable mirror found'']"
  using autoupdate_runs_no_hook [of "Some (example_mirrors ! 2)" example_loaded example_world
      example_loaded]
  by (simp add: startup_example) (simp add: example_loaded_def)

lemma ramp_start:
  "float_of_int 0 = Finite 0" "fge (Finite 0) (Finite 86400) = False"
  "fdiv (Finite 0) (Finite 86400) = Finite 0"
  "fmul (fmul (Finite 3) (Finite 0)) (Finite 0) = Finite 0"
  "fmul (fmul (fmul (Finite 2) (Finite 0)) (Finite 0)) (Finite 0) = Finite 0"
  "fsub (Finite 0) (Finite 0) = Finite 0"
  by code_simp+

text \<open>
  Claim C1, as stated (before the lock and the mirrors, the probability is computed and,
  unless forced, compared with a draw; when the draw is not below it the run ends with
  status 0 and attempts no mirror), fails: \<^verbatim>\<open>main\<close> never calls \<^verbatim>\<open>get_probability\<close>.
  For an update announced at this very second with priority 1 the probability is 0, so
  every draw from \<open>[0,1)\<close> is at least the probability; the force flag is not set; yet
  the example run attempts its three mirrors and ends with status 1.
\<close>

theorem probability_gate_counterexample:
  "\<not> force (G example_loaded)
   \<and> get_probability example_world 1700000000 (Finite 1) example_loaded =
       Return (Finite 0) example_loaded
   \<and> exit_status (main example_world) = Some 1
   \<and> length (attempts (main example_world)) = 3"
proof -
  have d: "time_diff example_world 1700000000 = Some 0"
    using time_diff_example[of 1700000000] by simp
  have "get_probability example_world 1700000000 (Finite 1) example_loaded =
          Return (Finite 0) example_loaded"
    by (simp only: get_probability_ramp[OF not_fallback_example d] ramp_quotients ramp_start
          Let_def if_False)
  moreover have "\<not> force (G example_loaded)" by (simp add: example_loaded_def G_init_def)
  ultimately show ?thesis
    by (simp add: main_example exit_status_def attempts_def final_proc_def fputs_def)
qed

text \<open>Nothing in \<^verbatim>\<open>main\<close> reads the clock or the uptime.\<close>

lemma parse_args_clock: "parse_args (w\<lparr>now := t, proc_uptime := up\<rparr>) p = parse_args w p"
  by (simp add: parse_args_def)

lemma load_positive_number_clock:
  "load_positive_number (w\<lparr>now := t, proc_uptime := up\<rparr>) = load_positive_number w"
  by (intro ext) (simp add: load_positive_number_def split: option.splits)

lemma read_one_line_clock:
  "read_one_line (w\<lparr>now := t, proc_uptime := up\<rparr>) = read_one_line w"
  by (intro ext) (simp add: read_one_line_def)

lemma load_settings_found_clock:
  "load_settings_found (w\<lparr>now := t, proc_uptime := up\<rparr>) = load_settings_found w"
  by (intro ext)
    (simp only: load_settings_found_def load_positive_number_clock read_one_line_clock)

lemma load_settings_clock: "load_settings (w\<lparr>now := t, proc_uptime := up\<rparr>) p = load_settings w p"
  by (simp add: load_settings_def load_settings_found_clock split: option.splits)

lemma randomize_clock: "randomize (w\<lparr>now := t, proc_uptime := up\<rparr>) p = randomize w p"
  by (simp add: randomize_def)

lemma lock_autoupdater_clock:
  "lock_autoupdater (w\<lparr>now := t, proc_uptime := up\<rparr>) p = lock_autoupdater w p"
  by (simp add: lock_autoupdater_def flock_def)

lemma mirror_loop_clock:
  "mirror_loop (w\<lparr>now := t, proc_uptime := up\<rparr>) left p = mirror_loop w left p"
  by (induction left arbitrary: p)
    (simp_all add: mirror_loop_Suc random_libc_def del: mirror_loop.simps(2)
      split: option.splits)

text \<open>
  Claim C1, amended: \<^verbatim>\<open>main\<close> computes no probability and compares no draw with one.
  Its outcome does not depend on \<^verbatim>\<open>time(NULL)\<close> or on the uptime, the inputs of
  \<^verbatim>\<open>get_probability\<close>; and once the command line, the hardware check, the settings, the
  seeding and the lock are passed, no random number has been drawn and the run goes on
  with the mirror loop, ending with status 1 when the loop returns.
\<close>

theorem main_ignores_probability:
  "main (w\<lparr>now := t, proc_uptime := up\<rparr>) = main w
   \<and> (startup w = Return () p \<longrightarrow>
        rand_calls p = 0
        \<and> main w = andthen (mirror_loop w (n_mirrors (G p)) p)
                     (\<lambda>u p'. Exit 1 (fputs ''autoupdater: no usable mirror found'' p')))"
proof (intro conjI impI)
  show "main (w\<lparr>now := t, proc_uptime := up\<rparr>) = main w"
    by (simp add: main_def parse_args_clock load_settings_clock randomize_clock
        lock_autoupdater_clock mirror_loop_clock cong: if_cong)
next
  assume s: "startup w = Return () p"
  from startup_Return[OF s] show "rand_calls p = 0" by simp
  show "main w = andthen (mirror_loop w (n_mirrors (G p)) p)
                     (\<lambda>u p'. Exit 1 (fputs ''autoupdater: no usable mirror found'' p'))"
    by (simp add: main_startup s)
qed

theorem main_ignores_probability_witness:
  "main (example_world\<lparr>now := 0, proc_uptime := None\<rparr>) = main example_world
   \<and> rand_calls example_loaded = 0
   \<and> main example_world = andthen (mirror_loop example_world 3 example_loaded)
                     (\<lambda>u p'. Exit 1 (fputs ''autoupdater: no usable mirror found'' p'))"
  using main_ignores_probability [where w = example_world and t = 0 and up = None
      and p = example_loaded]
  by (simp add: startup_example) (simp add: example_loaded_def)

section \<open>The lock\<close>

text \<open>Every step before the mirror loop returns or exits, and calls no mirror.\<close>

lemma andthen_trace:
  assumes "final_proc (andthen r f) = Some p'"
    and "\<And>q. final_proc r = Some q \<Longrightarrow> trace q = tr"
    and "\<And>x p1. r = Return x p1 \<Longrightarrow> final_proc (f x p1) = Some p' \<Longrightarrow> trace p' = tr"
  shows "trace p' = tr"
  using assms by (cases r) (auto simp: final_proc_def)

lemma startup_trace:
  assumes "final_proc (startup w) = Some p'"
  shows "trace p' = []"
  using assms unfolding startup_def
proof (rule andthen_trace)
  show "\<And>q. final_proc (parse_args w proc_init) = Some q \<Longrightarrow> trace q = []"
    using parse_args_trace by (fastforce simp: proc_init_def)
next
  fix u p1
  assume "parse_args w proc_init = Return u p1"
  then have t1: "trace p1 = []"
    using parse_args_trace[of w proc_init p1] by (simp add: final_proc_def proc_init_def)
  assume a: "final_proc
        (if image_name w = None
         then Exit 1 (fputs ''autoupdater: error: unsupported hardware model'' p1)
         else andthen (load_settings w p1)
               (\<lambda>u p2. andthen (randomize w p2) (\<lambda>u. lock_autoupdater w))) = Some p'"
  show "trace p' = []"
  proof (cases "image_name w = None")
    case True
    with a t1 show ?thesis by (auto simp: final_proc_def fputs_def)
  next
    case False
    with a have "final_proc (andthen (load_settings w p1)
               (\<lambda>u p2. andthen (randomize w p2) (\<lambda>u. lock_autoupdater w))) = Some p'"
      by simp
    then show ?thesis
    proof (rule andthen_trace)
      show "\<And>q. final_proc (load_settings w p1) = Some q \<Longrightarrow> trace q = []"
        using load_settings_trace t1 by fastforce
    next
      fix u2 p2
      assume "load_settings w p1 = Return u2 p2"
      then have t2: "trace p2 = []"
        using load_settings_trace[of w p1 p2] t1 by (simp add: final_proc_def)
      assume "final_proc (andthen (randomize w p2) (\<lambda>u. lock_autoupdater w)) = Some p'"
      then show "trace p' = []"
      proof (rule andthen_trace)
        show "\<And>q. final_proc (randomize w p2) = Some q \<Longrightarrow> trace q = []"
          using randomize_trace t2 by fastforce
      next
        fix u3 p3
        assume "randomize w p2 = Return u3 p3"
        then have t3: "trace p3 = []"
          using randomize_trace[of w p2 p3] t2 by (simp add: final_proc_def)
        assume "final_proc (lock_autoupdater w p3) = Some p'"
        with lock_autoupdater_trace t3 show "trace p' = []" by fastforce
      qed
    qed
  qed
qed

lemma lock_held_exit:
  assumes "lock_held w lockfile" and "can_open w lockfile"
  shows "lock_autoupdater w p =
    Exit 1 (fputs ''autoupdater: error: another instance is currently running'' p)"
  using assms by (simp add: lock_autoupdater_def flock_def)

lemma terminates_simps [simp]:
  "terminates (Return x p)" "terminates (Exit st p)"
  "\<not> terminates OutOfBounds" "\<not> terminates Blocked" "\<not> terminates Overflow"
  by (simp_all add: terminates_def final_proc_def)

lemma terminates_andthen:
  "terminates r \<Longrightarrow> (\<And>x p. terminates (f x p)) \<Longrightarrow> terminates (andthen r f)"
  by (cases r) simp_all

lemma parse_args_terminates: "terminates (parse_args w p)"
  by (simp add: parse_args_def case_OPTION_BRANCH_def case_OPTION_FORCE_def
      case_OPTION_FALLBACK_def case_OPTION_HELP_def case_default_def Let_def
      split: list.splits)

lemma load_positive_number_terminates: "terminates (load_positive_number w s opt p)"
  by (simp add: load_positive_number_def split: option.splits prod.splits)

lemma load_string_list_terminates: "terminates (load_string_list s opt p)"
  by (simp add: load_string_list_def split: option.splits uci_value.splits)

lemma load_settings_found_terminates: "terminates (load_settings_found w pkg s p)"
  unfolding load_settings_found_def Let_def
  by (auto intro!: terminates_andthen load_positive_number_terminates
      load_string_list_terminates split: option.splits)

lemma load_settings_terminates: "terminates (load_settings w p)"
  by (simp add: load_settings_def load_settings_found_terminates split: option.splits)

lemma randomize_terminates: "terminates (randomize w p)"
  by (simp add: randomize_def split: option.splits)

lemma startup_locked:
  assumes "lock_held w lockfile" and "can_open w lockfile"
  shows "\<exists>st p'. startup w = Exit st p'"
proof -
  have "terminates (startup w)"
    unfolding startup_def
    by (intro terminates_andthen parse_args_terminates)
      (simp add: lock_held_exit[OF assms] terminates_andthen load_settings_terminates
        randomize_terminates)
  moreover have "\<not> (\<exists>u p. startup w = Return u p)"
    unfolding startup_def
    by (auto simp: andthen_Return_iff lock_held_exit[OF assms] split: if_splits)
  ultimately show ?thesis
    by (cases "startup w") simp_all
qed

text \<open>
  Claim C9: when another process holds the lock on \<^verbatim>\<open>/var/run/autoupdater.lock\<close> (and the
  file can be opened), \<^verbatim>\<open>lock_autoupdater\<close> does not wait and does not try again: with
  its one non-blocking \<^verbatim>\<open>flock\<close> call it prints "another instance is currently running"
  and exits with status 1. The whole run then ends in an exit and has attempted no mirror;
  when the steps before the lock return, it ends with that message and status 1.
\<close>

theorem lock_contention:
  assumes "lock_held w lockfile" and "can_open w lockfile"
  shows "lock_autoupdater w p =
           Exit 1 (fputs ''autoupdater: error: another instance is currently running'' p)
       \<and> attempts (main w) = []
       \<and> (\<exists>st. exit_status (main w) = Some st)
       \<and> (parse_args w proc_init = Return () proc_init \<and> image_name w \<noteq> None
            \<and> load_settings w proc_init = Return () p2 \<and> randomize w p2 = Return () p3 \<longrightarrow>
          main w = Exit 1 (fputs ''autoupdater: error: another instance is currently running'' p3))"
proof (intro conjI impI)
  show "lock_autoupdater w p =
           Exit 1 (fputs ''autoupdater: error: another instance is currently running'' p)"
    using assms by (rule lock_held_exit)
next
  from startup_locked[OF assms] obtain st p' where s: "startup w = Exit st p'" by blast
  then have m: "main w = Exit st p'" by (simp add: main_startup)
  from startup_trace[of w p'] s have "trace p' = []" by (simp add: final_proc_def)
  with m show "attempts (main w) = []" by (simp add: attempts_def final_proc_def)
  from m show "\<exists>st. exit_status (main w) = Some st" by (simp add: exit_status_def)
next
  assume "parse_args w proc_init = Return () proc_init \<and> image_name w \<noteq> None
            \<and> load_settings w proc_init = Return () p2 \<and> randomize w p2 = Return () p3"
  then show "main w = Exit 1 (fputs ''autoupdater: error: another instance is currently running'' p3)"
    using lock_held_exit[OF assms, of p3] by (auto simp: main_def)
qed

theorem lock_contention_witness:
  "lock_autoupdater (example_world\<lparr>lock_held := (\<lambda>path. True)\<rparr>) example_loaded =
     Exit 1 (fputs ''autoupdater: error: another instance is currently running'' example_loaded)
   \<and> attempts (main (example_world\<lparr>lock_held := (\<lambda>path. True)\<rparr>)) = []
   \<and> main (example_world\<lparr>lock_held := (\<lambda>path. True)\<rparr>) =
     Exit 1 (fputs ''autoupdater: error: another instance is currently running'' example_loaded)"
proof -
  let ?w = "example_world\<lparr>lock_held := (\<lambda>path. True)\<rparr>"
  let ?p2 = "example_loaded\<lparr>rand_seed := 1\<rparr>"
  have h1: "lock_held ?w lockfile" by simp
  have h2: "can_open ?w lockfile" by (simp add: example_world_def)
  have a: "parse_args ?w proc_init = Return () proc_init"
    by (simp add: parse_args_def example_world_def)
  have b: "image_name ?w \<noteq> None" by (simp add: example_world_def)
  have c: "load_settings ?w proc_init = Return () ?p2"
    by (simp add: example_world_def proc_init_def G_init_def load_settings_def
        load_settings_found_def example_package_def uci_lookup_option_string_def
        uci_lookup_option_def uci_lookup_section_def load_positive_number_def
        load_string_list_def example_loaded_def example_mirrors_def)
  have d: "randomize ?w ?p2 = Return () example_loaded"
    by (simp add: randomize_def example_world_def example_loaded_def)
  from lock_contention [OF h1 h2, of example_loaded ?p2 example_loaded] a b c d
  show ?thesis by (simp add: attempts_def final_proc_def fputs_def example_loaded_def)
qed

section \<open>Selection of the next mirror\<close>












end
